theory Spec2Isabelle
  imports Main "HOL-Library.Log_Nat"
begin

section \<open>JavaScript numbers\<close>

text \<open>
  The wage counter computes with JavaScript Numbers, that is IEEE 754 binary64 values. A finite
  Number is modelled by the rational it denotes; the two zeros are identified (the program
  never divides by a variable and never inspects the sign of a zero). Every arithmetic
  result is rounded to the nearest binary64 value, ties to even, by \<open>fl\<close>.
\<close>

datatype jsnum = Finite rat | PosInf | NegInf | NaN

text \<open>\<open>binade q\<close> is the exponent \<open>e\<close> with \<open>2\<^sup>e \<le> |q| < 2\<^sup>e\<^sup>+\<^sup>1\<close>, for \<open>q \<noteq> 0\<close>.\<close>

definition binade :: "rat \<Rightarrow> int" where
  "binade q = (if 1 \<le> \<bar>q\<bar> then bitlen \<lfloor>\<bar>q\<bar>\<rfloor> - 1
               else - bitlen (\<lceil>1 / \<bar>q\<bar>\<rceil> - 1))"

definition round_half_even :: "rat \<Rightarrow> int" where
  "round_half_even x =
     (let f = \<lfloor>x\<rfloor>; d = x - of_int f
      in if d < 1 / 2 then f else if 1 / 2 < d then f + 1 else if even f then f else f + 1)"

text \<open>
  Rounding to binary64: 53 significant bits, exponents from \<open>-1022\<close> (below that the
  spacing stays \<open>2\<^sup>-\<^sup>1\<^sup>0\<^sup>7\<^sup>4\<close>, the subnormal range), overflow to an infinity from \<open>2\<^sup>1\<^sup>0\<^sup>2\<^sup>4\<close>.
\<close>

definition fl :: "rat \<Rightarrow> jsnum" where
  "fl q = (if q = 0 then Finite 0 else
     let e = max (binade q) (- 1022); u = 2 powi (e - 52);
         r = of_int (round_half_even (q / u)) * u
     in if 2 ^ 1024 \<le> \<bar>r\<bar> then (if 0 < q then PosInf else NegInf) else Finite r)"

definition signed_inf :: "bool \<Rightarrow> jsnum" where
  "signed_inf positive = (if positive then PosInf else NegInf)"

text \<open>The operators \<open>/\<close>, \<open>*\<close> and \<open>%\<close> on Numbers.\<close>

fun num_div :: "jsnum \<Rightarrow> jsnum \<Rightarrow> jsnum" where
  "num_div NaN y = NaN"
| "num_div x NaN = NaN"
| "num_div (Finite a) (Finite b) =
     (if b = 0 then (if a = 0 then NaN else signed_inf (0 < a)) else fl (a / b))"
| "num_div (Finite a) PosInf = Finite 0"
| "num_div (Finite a) NegInf = Finite 0"
| "num_div PosInf (Finite b) = signed_inf (0 \<le> b)"
| "num_div NegInf (Finite b) = signed_inf (b < 0)"
| "num_div x y = NaN"

fun num_mul :: "jsnum \<Rightarrow> jsnum \<Rightarrow> jsnum" where
  "num_mul NaN y = NaN"
| "num_mul x NaN = NaN"
| "num_mul (Finite a) (Finite b) = fl (a * b)"
| "num_mul (Finite a) PosInf = (if a = 0 then NaN else signed_inf (0 < a))"
| "num_mul (Finite a) NegInf = (if a = 0 then NaN else signed_inf (a < 0))"
| "num_mul PosInf (Finite b) = (if b = 0 then NaN else signed_inf (0 < b))"
| "num_mul NegInf (Finite b) = (if b = 0 then NaN else signed_inf (b < 0))"
| "num_mul PosInf PosInf = PosInf"
| "num_mul NegInf NegInf = PosInf"
| "num_mul x y = NegInf"

definition trunc_rat :: "rat \<Rightarrow> int" where
  "trunc_rat x = (if 0 \<le> x then \<lfloor>x\<rfloor> else \<lceil>x\<rceil>)"

text \<open>The remainder keeps the sign of the dividend and is exact (no rounding).\<close>

fun num_mod :: "jsnum \<Rightarrow> jsnum \<Rightarrow> jsnum" where
  "num_mod (Finite a) (Finite b) =
     (if b = 0 then NaN else Finite (a - b * of_int (trunc_rat (a / b))))"
| "num_mod (Finite a) PosInf = Finite a"
| "num_mod (Finite a) NegInf = Finite a"
| "num_mod x y = NaN"

text \<open>\<open>Math.floor\<close>.\<close>

fun num_floor :: "jsnum \<Rightarrow> jsnum" where
  "num_floor (Finite a) = Finite (of_int \<lfloor>a\<rfloor>)"
| "num_floor x = x"

text \<open>The comparison \<open><\<close>: false as soon as one side is NaN.\<close>

fun num_lt :: "jsnum \<Rightarrow> jsnum \<Rightarrow> bool" where
  "num_lt NaN y = False"
| "num_lt x NaN = False"
| "num_lt (Finite a) (Finite b) = (a < b)"
| "num_lt (Finite a) PosInf = True"
| "num_lt (Finite a) NegInf = False"
| "num_lt PosInf y = False"
| "num_lt NegInf NegInf = False"
| "num_lt NegInf y = True"

text \<open>\<open>x <= y\<close> is \<open>y < x\<close> being false, unless one side is NaN.\<close>

definition num_le :: "jsnum \<Rightarrow> jsnum \<Rightarrow> bool" where
  "num_le x y = (x \<noteq> NaN \<and> y \<noteq> NaN \<and> \<not> num_lt y x)"

subsection \<open>Number to string\<close>

definition digit_char :: "nat \<Rightarrow> char" where
  "digit_char d = ''0123456789'' ! d"

fun nat_toString :: "nat \<Rightarrow> string" where
  "nat_toString n =
     (if n < 10 then [digit_char n] else nat_toString (n div 10) @ [digit_char (n mod 10)])"

declare nat_toString.simps [simp del]

text \<open>
  \<open>Number.prototype.toString\<close> on the values the time display meets: NaN, the infinities
  and the integers of magnitude below \<open>2\<^sup>5\<^sup>3\<close>, which print as their exact decimals. The
  shortest round-trip digits of the other Numbers (fractions, and the larger integers, whose
  last digits print as zeros) are outside this model (\<open>None\<close>).
\<close>

definition num_toString :: "jsnum \<Rightarrow> string option" where
  "num_toString x = (case x of
       NaN \<Rightarrow> Some ''NaN''
     | PosInf \<Rightarrow> Some ''Infinity''
     | NegInf \<Rightarrow> Some ''-Infinity''
     | Finite q \<Rightarrow>
         if q = of_int \<lfloor>q\<rfloor> \<and> \<bar>q\<bar> < 2 ^ 53
         then Some ((if q < 0 then ''-'' else []) @ nat_toString (nat \<bar>\<lfloor>q\<rfloor>\<bar>))
         else None)"

text \<open>\<open>s.padStart(n, c)\<close> with a one-character pad string.\<close>

definition padStart :: "nat \<Rightarrow> char \<Rightarrow> string \<Rightarrow> string" where
  "padStart n c s = replicate (n - length s) c @ s"

section \<open>JavaScript values\<close>

text \<open>
  The arguments a caller can pass: Numbers, strings, booleans, \<open>null\<close> and \<open>undefined\<close>
  (objects, symbols and BigInts are not modelled). The conversion of a string to a
  Number (the StringNumericLiteral grammar) belongs to the language, not to this program;
  it is a parameter \<open>S\<close> of everything that may convert a string.
\<close>

datatype jsval = JNumber jsnum | JString string | JBoolean bool | JNull | JUndefined

type_synonym strnum = "string \<Rightarrow> jsnum"

text \<open>A conversion for concrete runs that pass no string: every string converts to NaN.\<close>

definition str_NaN :: strnum where
  "str_NaN s = NaN"

fun ToNumber :: "strnum \<Rightarrow> jsval \<Rightarrow> jsnum" where
  "ToNumber S (JNumber x) = x"
| "ToNumber S (JString s) = S s"
| "ToNumber S (JBoolean b) = Finite (if b then 1 else 0)"
| "ToNumber S JNull = Finite 0"
| "ToNumber S JUndefined = NaN"

text \<open>\<open>typeof v === 'number'\<close> and the global \<open>isNaN(v)\<close>.\<close>

fun is_number :: "jsval \<Rightarrow> bool" where
  "is_number (JNumber x) = True"
| "is_number v = False"

definition js_isNaN :: "strnum \<Rightarrow> jsval \<Rightarrow> bool" where
  "js_isNaN S v = (ToNumber S v = NaN)"

text \<open>
  \<open>v < n\<close>, \<open>v <= n\<close> and \<open>v / n\<close> for a value \<open>v\<close> and a Number \<open>n\<close> (in the program the
  right operand is always a numeric literal, so the left operand is converted to a Number).
\<close>

definition js_lt :: "strnum \<Rightarrow> jsval \<Rightarrow> jsnum \<Rightarrow> bool" where
  "js_lt S v n = num_lt (ToNumber S v) n"

definition js_le :: "strnum \<Rightarrow> jsval \<Rightarrow> jsnum \<Rightarrow> bool" where
  "js_le S v n = num_le (ToNumber S v) n"

definition js_div :: "strnum \<Rightarrow> jsval \<Rightarrow> jsnum \<Rightarrow> jsnum" where
  "js_div S v n = num_div (ToNumber S v) n"

definition js_mod :: "strnum \<Rightarrow> jsval \<Rightarrow> jsnum \<Rightarrow> jsnum" where
  "js_mod S v n = num_mod (ToNumber S v) n"

section \<open>WageCounter\<close>

text \<open>
  The class \<open>WageCounter\<close> of the application. \<open>startTime\<close> holds a \<open>Date\<close> object or
  \<open>null\<close>; the object is modelled by its instant in milliseconds (an object is always
  truthy, whatever its instant).
\<close>

record WageCounter =
  hourlyWage :: jsval
  currentEarnings :: jsval
  elapsedSeconds :: jsval
  wc_isRunning :: bool
  perSecondWage :: jsnum
  wc_startTime :: "int option"
  wc_pausedTime :: jsval

definition WageCounter_new :: WageCounter where
  "WageCounter_new =
     \<lparr> hourlyWage = JNumber (Finite 0), currentEarnings = JNumber (Finite 0),
       elapsedSeconds = JNumber (Finite 0), wc_isRunning = False,
       perSecondWage = Finite 0, wc_startTime = None, wc_pausedTime = JNumber (Finite 0) \<rparr>"

definition setHourlyWage :: "strnum \<Rightarrow> jsval \<Rightarrow> WageCounter \<Rightarrow> WageCounter" where
  "setHourlyWage S wage w =
     (let hw = (if js_lt S wage (Finite 0) then JNumber (Finite 0) else wage)
      in w\<lparr> hourlyWage := hw, perSecondWage := js_div S hw (Finite 3600) \<rparr>)"

definition getHourlyWage :: "WageCounter \<Rightarrow> jsval" where
  "getHourlyWage w = hourlyWage w"

definition getCurrentEarnings :: "WageCounter \<Rightarrow> jsval" where
  "getCurrentEarnings w = currentEarnings w"

definition setCurrentEarnings :: "jsval \<Rightarrow> WageCounter \<Rightarrow> WageCounter" where
  "setCurrentEarnings earnings w = w\<lparr> currentEarnings := earnings \<rparr>"

definition getElapsedTime :: "WageCounter \<Rightarrow> jsval" where
  "getElapsedTime w = elapsedSeconds w"

definition setElapsedTime :: "jsval \<Rightarrow> WageCounter \<Rightarrow> WageCounter" where
  "setElapsedTime seconds w = w\<lparr> elapsedSeconds := seconds \<rparr>"

definition getPerSecondWage :: "WageCounter \<Rightarrow> jsnum" where
  "getPerSecondWage w = perSecondWage w"

definition calculatePerSecondWage :: "strnum \<Rightarrow> jsval \<Rightarrow> jsnum" where
  "calculatePerSecondWage S hourlyWage' =
     (if \<not> is_number hourlyWage' \<or> js_isNaN S hourlyWage' then Finite 0
      else let validWage = (if js_lt S hourlyWage' (Finite 0) then JNumber (Finite 0) else hourlyWage')
           in js_div S validWage (Finite 3600))"

definition calculateEarningsForSeconds :: "strnum \<Rightarrow> WageCounter \<Rightarrow> jsval \<Rightarrow> jsnum" where
  "calculateEarningsForSeconds S w seconds =
     (if \<not> is_number seconds \<or> js_isNaN S seconds \<or> js_lt S seconds (Finite 0) then Finite 0
      else let wage = (if num_lt (perSecondWage w) (Finite 0) then Finite 0 else perSecondWage w)
           in num_mul wage (ToNumber S seconds))"

definition updateCurrentEarnings :: "strnum \<Rightarrow> WageCounter \<Rightarrow> WageCounter" where
  "updateCurrentEarnings S w =
     w\<lparr> currentEarnings := JNumber (calculateEarningsForSeconds S w (elapsedSeconds w)) \<rparr>"

definition getIsRunning :: "WageCounter \<Rightarrow> bool" where
  "getIsRunning w = wc_isRunning w"

definition setIsRunning :: "bool \<Rightarrow> WageCounter \<Rightarrow> WageCounter" where
  "setIsRunning running w = w\<lparr> wc_isRunning := running \<rparr>"

definition setStartTime :: "int option \<Rightarrow> WageCounter \<Rightarrow> WageCounter" where
  "setStartTime time w = w\<lparr> wc_startTime := time \<rparr>"

definition setPausedTime :: "jsval \<Rightarrow> WageCounter \<Rightarrow> WageCounter" where
  "setPausedTime time w = w\<lparr> wc_pausedTime := time \<rparr>"

definition updateElapsedTime :: "strnum \<Rightarrow> jsval \<Rightarrow> WageCounter \<Rightarrow> WageCounter" where
  "updateElapsedTime S elapsedSeconds' w =
     updateCurrentEarnings S (w\<lparr> elapsedSeconds := elapsedSeconds' \<rparr>)"

text \<open>\<open>start()\<close>; \<open>now\<close> is the instant of \<open>new Date()\<close>.\<close>

definition wc_start :: "int \<Rightarrow> WageCounter \<Rightarrow> WageCounter" where
  "wc_start now w =
     (if \<not> wc_isRunning w
      then (let w1 = w\<lparr> wc_isRunning := True \<rparr>
            in if wc_startTime w1 = None then w1\<lparr> wc_startTime := Some now \<rparr> else w1)
      else w)"

definition wc_stop :: "WageCounter \<Rightarrow> WageCounter" where
  "wc_stop w = w\<lparr> wc_isRunning := False \<rparr>"

definition wc_reset :: "WageCounter \<Rightarrow> WageCounter" where
  "wc_reset w =
     w\<lparr> currentEarnings := JNumber (Finite 0), elapsedSeconds := JNumber (Finite 0),
       wc_isRunning := False, wc_startTime := None, wc_pausedTime := JNumber (Finite 0) \<rparr>"

text \<open>
  \<open>getFormattedElapsedTime()\<close>: the three fields are computed with Number arithmetic,
  printed with \<open>toString()\<close> and padded with \<open>padStart(2, '0')\<close>.
\<close>

definition getFormattedElapsedTime :: "strnum \<Rightarrow> WageCounter \<Rightarrow> string option" where
  "getFormattedElapsedTime S w =
     (let totalSeconds = elapsedSeconds w;
          hours = num_floor (js_div S totalSeconds (Finite 3600));
          minutes = num_floor (num_div (js_mod S totalSeconds (Finite 3600)) (Finite 60));
          seconds = js_mod S totalSeconds (Finite 60)
      in case (num_toString hours, num_toString minutes, num_toString seconds) of
           (Some h, Some m, Some s) \<Rightarrow>
             Some (padStart 2 CHR ''0'' h @ '':'' @ padStart 2 CHR ''0'' m @ '':''
                   @ padStart 2 CHR ''0'' s)
         | _ \<Rightarrow> None)"

text \<open>The states a WageCounter can be brought into through its methods.\<close>

inductive wc_reachable :: "strnum \<Rightarrow> WageCounter \<Rightarrow> bool" for S :: strnum where
  wc_new: "wc_reachable S WageCounter_new"
| wc_setHourlyWage: "wc_reachable S w \<Longrightarrow> wc_reachable S (setHourlyWage S wage w)"
| wc_setCurrentEarnings: "wc_reachable S w \<Longrightarrow> wc_reachable S (setCurrentEarnings v w)"
| wc_setElapsedTime: "wc_reachable S w \<Longrightarrow> wc_reachable S (setElapsedTime v w)"
| wc_updateCurrentEarnings: "wc_reachable S w \<Longrightarrow> wc_reachable S (updateCurrentEarnings S w)"
| wc_setIsRunning: "wc_reachable S w \<Longrightarrow> wc_reachable S (setIsRunning b w)"
| wc_setStartTime: "wc_reachable S w \<Longrightarrow> wc_reachable S (setStartTime t w)"
| wc_setPausedTime: "wc_reachable S w \<Longrightarrow> wc_reachable S (setPausedTime v w)"
| wc_updateElapsedTime: "wc_reachable S w \<Longrightarrow> wc_reachable S (updateElapsedTime S v w)"
| wc_started: "wc_reachable S w \<Longrightarrow> wc_reachable S (wc_start now w)"
| wc_stopped: "wc_reachable S w \<Longrightarrow> wc_reachable S (wc_stop w)"
| wc_was_reset: "wc_reachable S w \<Longrightarrow> wc_reachable S (wc_reset w)"

text \<open>
  A run of a WageCounter: the wage 3600, ten elapsed seconds, then the wage 7200.
\<close>

definition rate_changed_counter :: WageCounter where
  "rate_changed_counter =
     setHourlyWage str_NaN (JNumber (Finite 7200))
       (updateElapsedTime str_NaN (JNumber (Finite 10))
          (setHourlyWage str_NaN (JNumber (Finite 3600)) WageCounter_new))"

section \<open>TimerManager\<close>

text \<open>
  The host's timer table: \<open>setInterval\<close> registers a repeating timer and returns its handle,
  a positive integer; \<open>clearInterval\<close> removes it. The table maps each live handle
  to its delay.
\<close>

record Scheduler =
  timers :: "nat \<rightharpoonup> jsnum"
  last_id :: nat

definition setInterval :: "jsnum \<Rightarrow> Scheduler \<Rightarrow> nat \<times> Scheduler" where
  "setInterval delay sc =
     (let h = Suc (last_id sc) in (h, sc\<lparr> timers := (timers sc)(h \<mapsto> delay), last_id := h \<rparr>))"

definition clearInterval :: "nat \<Rightarrow> Scheduler \<Rightarrow> Scheduler" where
  "clearInterval h sc = sc\<lparr> timers := (timers sc)(h := None) \<rparr>"

definition Scheduler_empty :: Scheduler where
  "Scheduler_empty = \<lparr> timers = Map.empty, last_id = 0 \<rparr>"

text \<open>
  A call either returns a value or throws; the state is returned in both cases, since the
  writes made before a throw stay.
\<close>

datatype 'a outcome = Returns 'a | Throws

text \<open>
  The class \<open>TimerManager\<close>. Instants and durations are \<open>Date.now()\<close> milliseconds:
  integers, far inside the range where Number arithmetic on integers is exact, so they are
  modelled by \<open>int\<close> (and \<open>Math.floor(x / 1000)\<close> by \<open>div\<close>, see \<open>floor_div_1000\<close> below).
  Every operation that reads the clock takes the value of \<open>Date.now()\<close> as \<open>now\<close>.

  The constructor stores its argument in the field \<open>callback\<close> unchecked, and no method
  assigns the field again. The argument is a function, an object that is not a function, or
  a primitive value: the application passes a function, the tests pass functions, \<open>null\<close>,
  \<open>undefined\<close> and the string \<open>'not a function'\<close>.
\<close>

datatype callback = CbFunction | CbObject | CbPrimitive jsval

record TimerManager =
  tm_callback :: callback
  tm_intervalId :: "nat option"
  tm_isRunning :: bool
  tm_startTime :: "int option"
  tm_pausedTime :: int
  updateInterval :: jsnum

text \<open>
  Truthiness. The tests \<open>if (this.startTime)\<close> and \<open>if (this.intervalId)\<close> are truthiness
  tests: \<open>null\<close> is falsy, and so is the number \<open>0\<close>. Of the primitive values, \<open>null\<close>,
  \<open>undefined\<close>, \<open>false\<close>, \<open>0\<close>, \<open>NaN\<close> and the empty string are falsy; every object is
  truthy.
\<close>

fun truthy_time :: "int option \<Rightarrow> bool" where
  "truthy_time None = False"
| "truthy_time (Some t) = (t \<noteq> 0)"

fun truthy_handle :: "nat option \<Rightarrow> bool" where
  "truthy_handle None = False"
| "truthy_handle (Some h) = (h \<noteq> 0)"

fun js_truthy :: "jsval \<Rightarrow> bool" where
  "js_truthy (JNumber x) = (x \<noteq> NaN \<and> x \<noteq> Finite 0)"
| "js_truthy (JString s) = (s \<noteq> [])"
| "js_truthy (JBoolean b) = b"
| "js_truthy JNull = False"
| "js_truthy JUndefined = False"

fun cb_truthy :: "callback \<Rightarrow> bool" where
  "cb_truthy CbFunction = True"
| "cb_truthy CbObject = True"
| "cb_truthy (CbPrimitive v) = js_truthy v"

text \<open>
  \<open>new WeakRef(target)\<close> throws a TypeError unless the target is an object; the weak
  reference is modelled by its target. \<open>weakCallback\<close> is the constant of that name in
  \<open>start()\<close>: \<open>this.callback ? new WeakRef(this.callback) : null\<close>.
\<close>

fun new_WeakRef :: "callback \<Rightarrow> callback outcome" where
  "new_WeakRef CbFunction = Returns CbFunction"
| "new_WeakRef CbObject = Returns CbObject"
| "new_WeakRef (CbPrimitive v) = Throws"

definition weakCallback :: "callback \<Rightarrow> callback option outcome" where
  "weakCallback cb =
     (if cb_truthy cb
      then (case new_WeakRef cb of Returns r \<Rightarrow> Returns (Some r) | Throws \<Rightarrow> Throws)
      else Returns None)"

definition TimerManager_new :: "callback \<Rightarrow> TimerManager" where
  "TimerManager_new cb =
     \<lparr> tm_callback = cb, tm_intervalId = None, tm_isRunning = False, tm_startTime = None,
       tm_pausedTime = 0, updateInterval = Finite 1000 \<rparr>"

text \<open>
  \<open>start()\<close> writes \<open>isRunning\<close> and \<open>startTime\<close>, then makes the weak reference, then
  registers the schedule and writes \<open>intervalId\<close>. When the weak reference cannot be made
  the call throws with the first two writes done and no schedule registered.
\<close>

definition tm_start ::
  "int \<Rightarrow> TimerManager \<times> Scheduler \<Rightarrow> unit outcome \<times> TimerManager \<times> Scheduler" where
  "tm_start now x =
     (case x of (tm, sc) \<Rightarrow>
        if tm_isRunning tm then (Returns (), tm, sc)
        else
          let tm1 = tm\<lparr> tm_isRunning := True, tm_startTime := Some now \<rparr>
          in (case weakCallback (tm_callback tm1) of
                Throws \<Rightarrow> (Throws, tm1, sc)
              | Returns wr \<Rightarrow>
                  (case setInterval (updateInterval tm1) sc of (h, sc') \<Rightarrow>
                     (Returns (), tm1\<lparr> tm_intervalId := Some h \<rparr>, sc'))))"

definition tm_stop :: "int \<Rightarrow> TimerManager \<times> Scheduler \<Rightarrow> TimerManager \<times> Scheduler" where
  "tm_stop now x =
     (case x of (tm, sc) \<Rightarrow>
        if \<not> tm_isRunning tm then (tm, sc)
        else
          let tm1 = tm\<lparr> tm_isRunning := False \<rparr>;
              tm2 = (case tm_startTime tm1 of
                       Some a \<Rightarrow>
                         if truthy_time (Some a)
                         then tm1\<lparr> tm_pausedTime := tm_pausedTime tm1 + (now - a) \<rparr>
                         else tm1
                     | None \<Rightarrow> tm1)
          in (case tm_intervalId tm2 of
                Some h \<Rightarrow>
                  if truthy_handle (Some h)
                  then (tm2\<lparr> tm_intervalId := None \<rparr>, clearInterval h sc)
                  else (tm2, sc)
              | None \<Rightarrow> (tm2, sc)))"

definition tm_reset :: "int \<Rightarrow> TimerManager \<times> Scheduler \<Rightarrow> TimerManager \<times> Scheduler" where
  "tm_reset now x =
     (case (if tm_isRunning (fst x) then tm_stop now x else x) of (tm, sc) \<Rightarrow>
        (tm\<lparr> tm_startTime := None, tm_pausedTime := 0, tm_isRunning := False \<rparr>, sc))"

text \<open>
  The function that \<open>start()\<close> hands to \<open>setInterval\<close>, run at each tick of the schedule.
  It dereferences the weak reference (\<open>alive\<close> says that the target has not been collected)
  and calls the target when that is a function; the callback's own calls on the timer are
  calls of the methods modelled here. When there is a weak reference and it yields no
  function, the tick calls \<open>stop()\<close>. With no weak reference the tick does nothing.
\<close>

definition tm_tick :: "bool \<Rightarrow> int \<Rightarrow> TimerManager \<times> Scheduler \<Rightarrow> TimerManager \<times> Scheduler" where
  "tm_tick alive now x =
     (case weakCallback (tm_callback (fst x)) of
        Returns (Some CbFunction) \<Rightarrow> if alive then x else tm_stop now x
      | Returns (Some CbObject) \<Rightarrow> tm_stop now x
      | Returns (Some (CbPrimitive v)) \<Rightarrow> x
      | Returns None \<Rightarrow> x
      | Throws \<Rightarrow> x)"

text \<open>The local \<open>totalElapsed\<close> of \<open>getElapsedSeconds()\<close>, in milliseconds.\<close>

definition totalElapsed :: "int \<Rightarrow> TimerManager \<Rightarrow> int" where
  "totalElapsed now tm =
     (case tm_startTime tm of
        Some a \<Rightarrow>
          if tm_isRunning tm \<and> truthy_time (Some a)
          then tm_pausedTime tm + (now - a) else tm_pausedTime tm
      | None \<Rightarrow> tm_pausedTime tm)"

definition getElapsedSeconds :: "int \<Rightarrow> TimerManager \<Rightarrow> int" where
  "getElapsedSeconds now tm = totalElapsed now tm div 1000"

text \<open>
  \<open>setUpdateInterval(interval)\<close>; the restart reads the clock twice, \<open>now1\<close> in \<open>stop()\<close>
  and \<open>now2\<close> in \<open>start()\<close>, and throws when that \<open>start()\<close> does.
\<close>

definition setUpdateInterval ::
  "jsval \<Rightarrow> int \<Rightarrow> int \<Rightarrow> TimerManager \<times> Scheduler
     \<Rightarrow> unit outcome \<times> TimerManager \<times> Scheduler" where
  "setUpdateInterval interval now1 now2 x =
     (case x of (tm, sc) \<Rightarrow>
        (case interval of
           JNumber i \<Rightarrow>
             if num_lt (Finite 0) i
             then (let tm1 = tm\<lparr> updateInterval := i \<rparr>
                   in if tm_isRunning tm1 then tm_start now2 (tm_stop now1 (tm1, sc))
                      else (Returns (), tm1, sc))
             else (Returns (), tm, sc)
         | _ \<Rightarrow> (Returns (), tm, sc)))"

definition recordStartTime :: "int \<Rightarrow> TimerManager \<Rightarrow> TimerManager" where
  "recordStartTime now tm = tm\<lparr> tm_startTime := Some now \<rparr>"

definition recordPausedTime :: "int \<Rightarrow> TimerManager \<Rightarrow> TimerManager" where
  "recordPausedTime now tm =
     (case tm_startTime tm of
        Some a \<Rightarrow>
          if truthy_time (Some a) then tm\<lparr> tm_pausedTime := tm_pausedTime tm + (now - a) \<rparr>
          else tm
      | None \<Rightarrow> tm)"

text \<open>
  The states of a TimerManager and of the timer table reachable from the constructor, with
  any callback, through the methods, whether they return or throw, and through the ticks
  of the schedule; other code of the page may register timers of its own and clear them in
  between (\<open>tm_other_timer\<close>, \<open>tm_other_clear\<close>).
\<close>

inductive tm_reachable :: "TimerManager \<times> Scheduler \<Rightarrow> bool" where
  tm_new: "tm_reachable (TimerManager_new cb, sc)"
| tm_started: "tm_reachable x \<Longrightarrow> tm_reachable (snd (tm_start now x))"
| tm_stopped: "tm_reachable x \<Longrightarrow> tm_reachable (tm_stop now x)"
| tm_was_reset: "tm_reachable x \<Longrightarrow> tm_reachable (tm_reset now x)"
| tm_setUpdateInterval:
    "tm_reachable x \<Longrightarrow> tm_reachable (snd (setUpdateInterval i now1 now2 x))"
| tm_ticked: "tm_reachable x \<Longrightarrow> tm_reachable (tm_tick alive now x)"
| tm_recordStartTime: "tm_reachable (tm, sc) \<Longrightarrow> tm_reachable (recordStartTime now tm, sc)"
| tm_recordPausedTime: "tm_reachable (tm, sc) \<Longrightarrow> tm_reachable (recordPausedTime now tm, sc)"
| tm_other_timer: "tm_reachable (tm, sc) \<Longrightarrow> tm_reachable (tm, snd (setInterval d sc))"
| tm_other_clear:
    "tm_reachable (tm, sc) \<Longrightarrow> tm_intervalId tm \<noteq> Some h \<Longrightarrow>
     tm_reachable (tm, clearInterval h sc)"

text \<open>
  What holds in every reachable state (\<open>tm_handle_inv\<close>): a handle is held only while
  running, it is not 0 and it is live in the timer table; a running timer has a start
  instant. What holds in addition when the weak reference to the callback can be made
  (\<open>tm_inv\<close>): a running timer holds a handle.
\<close>

definition tm_handle_inv :: "TimerManager \<times> Scheduler \<Rightarrow> bool" where
  "tm_handle_inv x = (case x of (tm, sc) \<Rightarrow>
     (\<forall>h. tm_intervalId tm = Some h \<longrightarrow> tm_isRunning tm \<and> h \<noteq> 0 \<and> timers sc h \<noteq> None)
     \<and> (tm_isRunning tm \<longrightarrow> tm_startTime tm \<noteq> None))"

definition tm_inv :: "TimerManager \<times> Scheduler \<Rightarrow> bool" where
  "tm_inv x = (tm_handle_inv x \<and> (tm_isRunning (fst x) \<longrightarrow> tm_intervalId (fst x) \<noteq> None))"

text \<open>
  Sequences of calls on a TimerManager, each with the clock values it reads: every method
  that writes a field except \<open>reset()\<close> and \<open>recordStartTime()\<close>, and the tick of the
  schedule. \<open>clock_ordered t cs t'\<close> says that the clock does not run backward from \<open>t\<close>
  through the calls \<open>cs\<close> to \<open>t'\<close>; \<open>started_by t tm\<close> says that the start instant held,
  if any, is no later than \<open>t\<close>.
\<close>

datatype tm_call =
    CallStart int
  | CallStop int
  | CallSetUpdateInterval jsval int int
  | CallRecordPausedTime int
  | CallTick bool int

fun run_call :: "tm_call \<Rightarrow> TimerManager \<times> Scheduler \<Rightarrow> TimerManager \<times> Scheduler" where
  "run_call (CallStart now) x = snd (tm_start now x)"
| "run_call (CallStop now) x = tm_stop now x"
| "run_call (CallSetUpdateInterval i now1 now2) x = snd (setUpdateInterval i now1 now2 x)"
| "run_call (CallRecordPausedTime now) x = (recordPausedTime now (fst x), snd x)"
| "run_call (CallTick alive now) x = tm_tick alive now x"

fun run_calls :: "tm_call list \<Rightarrow> TimerManager \<times> Scheduler \<Rightarrow> TimerManager \<times> Scheduler" where
  "run_calls [] x = x"
| "run_calls (c # cs) x = run_calls cs (run_call c x)"

fun clock_ordered :: "int \<Rightarrow> tm_call list \<Rightarrow> int \<Rightarrow> bool" where
  "clock_ordered t [] t' = (t \<le> t')"
| "clock_ordered t (CallStart now # cs) t' = (t \<le> now \<and> clock_ordered now cs t')"
| "clock_ordered t (CallStop now # cs) t' = (t \<le> now \<and> clock_ordered now cs t')"
| "clock_ordered t (CallSetUpdateInterval i now1 now2 # cs) t' =
     (t \<le> now1 \<and> now1 \<le> now2 \<and> clock_ordered now2 cs t')"
| "clock_ordered t (CallRecordPausedTime now # cs) t' = (t \<le> now \<and> clock_ordered now cs t')"
| "clock_ordered t (CallTick alive now # cs) t' = (t \<le> now \<and> clock_ordered now cs t')"

definition started_by :: "int \<Rightarrow> TimerManager \<Rightarrow> bool" where
  "started_by t tm = (\<forall>a. tm_startTime tm = Some a \<longrightarrow> a \<le> t)"

text \<open>
  A timer constructed with the string \<open>'not a function'\<close>, as the test of the error
  handling of the TimerManager constructs it, and the state after its \<open>start()\<close> at the
  instant 1000.
\<close>

definition timer_not_a_function :: "TimerManager \<times> Scheduler" where
  "timer_not_a_function =
     (TimerManager_new (CbPrimitive (JString ''not a function'')), Scheduler_empty)"

definition timer_function :: "TimerManager \<times> Scheduler" where
  "timer_function = (TimerManager_new CbFunction, Scheduler_empty)"

section \<open>WageCounterApp\<close>

text \<open>
  What \<open>loadSavedSettings()\<close> gets for the key \<open>hourlyWage\<close>. \<open>loadSettings('hourlyWage', 0)\<close>
  yields the saved value, or the default 0 when nothing is saved or the storage cannot be
  read; \<open>validateWage\<close> then accepts or rejects the value. The storage and the validator
  are collaborators of the application, so the outcome is a parameter: the value is
  \<open>null\<close> or \<open>undefined\<close> (\<open>LoadedNothing\<close>), it is rejected (\<open>LoadedInvalid\<close>), or it is
  accepted as the Number \<open>v\<close> (\<open>LoadedValid v\<close>). With nothing saved the outcome is the
  accepted default 0.
\<close>

datatype stored_wage = LoadedNothing | LoadedInvalid | LoadedValid jsnum

definition nothing_saved :: stored_wage where
  "nothing_saved = LoadedValid (Finite 0)"

record WageCounterApp =
  wageCounter :: WageCounter
  timerManager :: "TimerManager option"
  isInitialized :: bool

definition WageCounterApp_new :: WageCounterApp where
  "WageCounterApp_new =
     \<lparr> wageCounter = WageCounter_new, timerManager = None, isInitialized = False \<rparr>"

definition app_setHourlyWage :: "strnum \<Rightarrow> jsval \<Rightarrow> WageCounterApp \<Rightarrow> WageCounterApp" where
  "app_setHourlyWage S wage app = app\<lparr> wageCounter := setHourlyWage S wage (wageCounter app) \<rparr>"

definition loadSavedSettings :: "strnum \<Rightarrow> stored_wage \<Rightarrow> WageCounterApp \<Rightarrow> WageCounterApp" where
  "loadSavedSettings S stored app =
     (case stored of
        LoadedValid v \<Rightarrow> app_setHourlyWage S (JNumber v) app
      | LoadedInvalid \<Rightarrow> app_setHourlyWage S (JNumber (Finite 0)) app
      | LoadedNothing \<Rightarrow> app)"

definition initialize :: "strnum \<Rightarrow> stored_wage \<Rightarrow> WageCounterApp \<Rightarrow> WageCounterApp" where
  "initialize S stored app =
     (if isInitialized app then app
      else (loadSavedSettings S stored
              (app\<lparr> timerManager := Some (TimerManager_new CbFunction) \<rparr>))
             \<lparr> isInitialized := True \<rparr>)"

text \<open>
  The calls of the application throw when they call a method on \<open>null\<close> (a TypeError)
  and when \<open>timerManager.start()\<close> does. \<open>start()\<close> reads the clock in
  \<open>wageCounter.start()\<close> and in \<open>timerManager.start()\<close>; both reads are \<open>now\<close>.
\<close>

definition app_start ::
  "strnum \<Rightarrow> stored_wage \<Rightarrow> int \<Rightarrow> WageCounterApp \<times> Scheduler
     \<Rightarrow> bool outcome \<times> WageCounterApp \<times> Scheduler" where
  "app_start S stored now x =
     (case x of (app, sc) \<Rightarrow>
        let app1 = (if \<not> isInitialized app then initialize S stored app else app)
        in if \<not> isInitialized app \<and> timerManager app1 = None then (Returns False, app1, sc)
           else if js_le S (getHourlyWage (wageCounter app1)) (Finite 0)
           then (Returns False, app1, sc)
           else
             let app2 = app1\<lparr> wageCounter := wc_start now (wageCounter app1) \<rparr>
             in (case timerManager app2 of
                   None \<Rightarrow> (Throws, app2, sc)
                 | Some tm \<Rightarrow>
                     (case tm_start now (tm, sc) of
                        (Returns u, tm', sc') \<Rightarrow>
                          (Returns True, app2\<lparr> timerManager := Some tm' \<rparr>, sc')
                      | (Throws, tm', sc') \<Rightarrow>
                          (Throws, app2\<lparr> timerManager := Some tm' \<rparr>, sc'))))"

definition app_stop :: "int \<Rightarrow> WageCounterApp \<times> Scheduler \<Rightarrow> unit outcome \<times> WageCounterApp \<times> Scheduler" where
  "app_stop now x =
     (case x of (app, sc) \<Rightarrow>
        if \<not> isInitialized app then (Returns (), app, sc)
        else (case timerManager app of
                None \<Rightarrow> (Throws, app, sc)
              | Some tm \<Rightarrow>
                  (case tm_stop now (tm, sc) of (tm', sc') \<Rightarrow>
                     (Returns (),
                      app\<lparr> timerManager := Some tm', wageCounter := wc_stop (wageCounter app) \<rparr>,
                      sc'))))"

definition app_reset :: "int \<Rightarrow> WageCounterApp \<times> Scheduler \<Rightarrow> unit outcome \<times> WageCounterApp \<times> Scheduler" where
  "app_reset now x =
     (case x of (app, sc) \<Rightarrow>
        if \<not> isInitialized app then (Returns (), app, sc)
        else (case timerManager app of
                None \<Rightarrow> (Throws, app, sc)
              | Some tm \<Rightarrow>
                  (case tm_reset now (tm, sc) of (tm', sc') \<Rightarrow>
                     (Returns (),
                      app\<lparr> timerManager := Some tm', wageCounter := wc_reset (wageCounter app) \<rparr>,
                      sc'))))"

text \<open>The snapshot returned by \<open>getState()\<close>.\<close>

record AppState =
  st_isRunning :: bool
  st_hourlyWage :: jsval
  st_currentEarnings :: jsval
  st_elapsedSeconds :: jsval
  st_formattedElapsedTime :: "string option"
  st_perSecondWage :: jsnum

definition getState :: "strnum \<Rightarrow> WageCounterApp \<Rightarrow> AppState" where
  "getState S app =
     \<lparr> st_isRunning = getIsRunning (wageCounter app),
       st_hourlyWage = getHourlyWage (wageCounter app),
       st_currentEarnings = getCurrentEarnings (wageCounter app),
       st_elapsedSeconds = getElapsedTime (wageCounter app),
       st_formattedElapsedTime = getFormattedElapsedTime S (wageCounter app),
       st_perSecondWage = getPerSecondWage (wageCounter app) \<rparr>"

definition isStateSynchronized :: "WageCounterApp \<Rightarrow> bool outcome" where
  "isStateSynchronized app =
     (if \<not> isInitialized app then Returns True
      else (case timerManager app of
              None \<Rightarrow> Throws
            | Some tm \<Rightarrow> Returns (tm_isRunning tm = getIsRunning (wageCounter app))))"

text \<open>
  Two runs of the application, with nothing saved: initialised, the wage set to 3600 and
  started at the instant 1000; and then the wage set to 0 while it runs.
\<close>

definition running_app :: "WageCounterApp \<times> Scheduler" where
  "running_app =
     snd (app_start str_NaN nothing_saved 1000
            (app_setHourlyWage str_NaN (JNumber (Finite 3600))
               (initialize str_NaN nothing_saved WageCounterApp_new),
             Scheduler_empty))"

definition running_app_rate_0 :: "WageCounterApp \<times> Scheduler" where
  "running_app_rate_0 =
     (app_setHourlyWage str_NaN (JNumber (Finite 0)) (fst running_app), snd running_app)"

section \<open>The time display of the specification\<close>

text \<open>
  The format as the specification words it, on natural numbers: \<open>HH:MM:SS\<close>, each field a
  decimal of at least two digits, the hours not wrapping at 24.
\<close>

definition spec_two_digits :: "nat \<Rightarrow> string" where
  "spec_two_digits k = (if k < 10 then [CHR ''0'', digit_char k] else nat_toString k)"

definition spec_HHMMSS :: "nat \<Rightarrow> string" where
  "spec_HHMMSS n =
     spec_two_digits (n div 3600) @ '':'' @ spec_two_digits (n div 60 mod 60) @ '':''
     @ spec_two_digits (n mod 60)"

section \<open>Properties of the rounding\<close>

lemma bitlen_pos_bounds:
  fixes m :: int
  assumes "1 \<le> m"
  shows "(2::rat) powi (bitlen m - 1) \<le> of_int m" and "of_int m + 1 \<le> (2::rat) powi bitlen m"
proof -
  from assms have m: "0 < m" by simp
  from bitlen_bounds [OF m] have lo: "2 ^ nat (bitlen m - 1) \<le> m" and hi: "m < 2 ^ nat (bitlen m)"
    by simp_all
  have b1: "1 \<le> bitlen m" using m by (simp add: bitlen_alt_def)
  have "(2::rat) powi (bitlen m - 1) = of_int (2 ^ nat (bitlen m - 1))"
    using b1 by (simp add: power_int_def)
  also have "\<dots> \<le> of_int m" using lo by (simp only: of_int_le_iff)
  finally show "(2::rat) powi (bitlen m - 1) \<le> of_int m" .
  from hi have "m + 1 \<le> 2 ^ nat (bitlen m)" by simp
  then have "(of_int (m + 1) :: rat) \<le> of_int (2 ^ nat (bitlen m))" by (simp only: of_int_le_iff)
  also have "\<dots> = (2::rat) powi bitlen m" using b1 by (simp add: power_int_def)
  finally show "of_int m + 1 \<le> (2::rat) powi bitlen m" by simp
qed

lemma binade_bounds:
  assumes "q \<noteq> 0"
  shows "2 powi binade q \<le> \<bar>q\<bar>" and "\<bar>q\<bar> < 2 powi (binade q + 1)"
proof -
  let ?a = "\<bar>q\<bar>"
  have pos: "0 < ?a" using assms by simp
  have "2 powi binade q \<le> ?a \<and> ?a < 2 powi (binade q + 1)"
  proof (cases "1 \<le> ?a")
    case True
    then have m: "1 \<le> \<lfloor>?a\<rfloor>" by (simp add: le_floor_iff)
    have e: "binade q = bitlen \<lfloor>?a\<rfloor> - 1" using True by (simp add: binade_def)
    have "2 powi (bitlen \<lfloor>?a\<rfloor> - 1) \<le> (of_int \<lfloor>?a\<rfloor> :: rat)" by (rule bitlen_pos_bounds [OF m])
    also have "\<dots> \<le> ?a" by simp
    finally have lo: "2 powi binade q \<le> ?a" by (simp add: e)
    have "?a < of_int \<lfloor>?a\<rfloor> + 1" by linarith
    also have "\<dots> \<le> 2 powi bitlen \<lfloor>?a\<rfloor>" by (rule bitlen_pos_bounds [OF m])
    finally have "?a < 2 powi (binade q + 1)" by (simp add: e)
    with lo show ?thesis by simp
  next
    case False
    let ?x = "1 / ?a"
    let ?m = "\<lceil>?x\<rceil> - 1"
    have x1: "1 < ?x" using False pos by (simp add: field_simps)
    then have m: "1 \<le> ?m" by (simp add: less_ceiling_iff)
    have e: "binade q = - bitlen ?m" using False by (simp add: binade_def)
    have mx: "of_int ?m < ?x" and xm: "?x \<le> of_int ?m + 1" by linarith+
    have "2 powi (bitlen ?m - 1) \<le> (of_int ?m :: rat)" by (rule bitlen_pos_bounds [OF m])
    with mx have lo: "2 powi (bitlen ?m - 1) < ?x" by (rule le_less_trans [rotated])
    have "of_int ?m + 1 \<le> (2::rat) powi bitlen ?m" by (rule bitlen_pos_bounds [OF m])
    with xm have hi: "?x \<le> 2 powi bitlen ?m" by (rule order_trans)
    have p: "0 < (2::rat) powi k" for k by simp
    from hi have "?a * (1 / ?a) \<le> ?a * 2 powi bitlen ?m"
      using pos by (intro mult_left_mono) simp_all
    then have "1 \<le> ?a * 2 powi bitlen ?m" using pos by simp
    then have "1 / 2 powi bitlen ?m \<le> ?a" using p [of "bitlen ?m"] by (simp add: field_simps)
    then have A: "2 powi binade q \<le> ?a" by (simp add: e power_int_minus_divide)
    from lo have "?a * 2 powi (bitlen ?m - 1) < ?a * (1 / ?a)"
      using pos by (intro mult_strict_left_mono) simp_all
    then have "?a * 2 powi (bitlen ?m - 1) < 1" using pos by simp
    then have "?a < 1 / 2 powi (bitlen ?m - 1)" using p [of "bitlen ?m - 1"] by (simp add: field_simps)
    also have "\<dots> = 2 powi (binade q + 1)"
      by (simp add: e flip: power_int_minus_divide)
    finally show ?thesis using A by simp
  qed
  then show "2 powi binade q \<le> \<bar>q\<bar>" and "\<bar>q\<bar> < 2 powi (binade q + 1)" by simp_all
qed

lemma powi2_less_cancel:
  assumes "(2::rat) powi a < 2 powi b"
  shows "a < b"
proof (rule ccontr)
  assume "\<not> a < b"
  then have "b \<le> a" by simp
  then have "(2::rat) powi b \<le> 2 powi a" by (rule power_int_increasing) simp
  with assms show False by simp
qed

lemma binade_eqI:
  assumes "2 powi e \<le> \<bar>q\<bar>" and "\<bar>q\<bar> < 2 powi (e + 1)"
  shows "binade q = e"
proof -
  have "0 < (2::rat) powi e" by simp
  from this assms(1) have "0 < \<bar>q\<bar>" by (rule less_le_trans)
  then have q: "q \<noteq> 0" by simp
  note b = binade_bounds [OF q]
  have "(2::rat) powi e < 2 powi (binade q + 1)" using assms(1) b(2) by simp
  then have 1: "e < binade q + 1" by (rule powi2_less_cancel)
  have "(2::rat) powi binade q < 2 powi (e + 1)" using assms(2) b(1) by simp
  then have 2: "binade q < e + 1" by (rule powi2_less_cancel)
  from 1 2 show ?thesis by simp
qed



lemma round_half_even_cases:
  "round_half_even x = \<lfloor>x\<rfloor> \<and> x - of_int \<lfloor>x\<rfloor> \<le> 1 / 2 \<or>
   round_half_even x = \<lfloor>x\<rfloor> + 1 \<and> 1 / 2 \<le> x - of_int \<lfloor>x\<rfloor>"
  by (simp add: round_half_even_def Let_def)

lemma round_half_even_error: "\<bar>of_int (round_half_even x) - x\<bar> \<le> 1 / 2"
proof -
  have "of_int \<lfloor>x\<rfloor> \<le> x" and "x < of_int \<lfloor>x\<rfloor> + 1" by linarith+
  with round_half_even_cases [of x] show ?thesis by auto
qed

lemma round_half_even_ge:
  assumes "of_int m \<le> x"
  shows "m \<le> round_half_even x"
proof -
  from assms have "m \<le> \<lfloor>x\<rfloor>" by (simp add: le_floor_iff)
  with round_half_even_cases [of x] show ?thesis by auto
qed

lemma round_half_even_eqI:
  assumes "\<bar>x - of_int n\<bar> < 1 / 2"
  shows "round_half_even x = n"
proof -
  have "\<bar>of_int (round_half_even x) - (of_int n :: rat)\<bar> < 1"
    using round_half_even_error [of x] assms by linarith
  then have "\<bar>(of_int (round_half_even x - n) :: rat)\<bar> < 1" by simp
  then have "\<bar>round_half_even x - n\<bar> < 1"
    by (metis of_int_abs of_int_less_1_iff)
  then show ?thesis by simp
qed

lemma fl_eqI:
  assumes e: "2 powi e \<le> \<bar>q\<bar>" "\<bar>q\<bar> < 2 powi (e + 1)" "- 1022 \<le> e"
    and n: "\<bar>q / 2 powi (e - 52) - of_int n\<bar> < 1 / 2"
    and r: "\<bar>of_int n * (2::rat) powi (e - 52)\<bar> < 2 ^ 1024"
  shows "fl q = Finite (of_int n * 2 powi (e - 52))"
proof -
  have b: "binade q = e" using e(1,2) by (rule binade_eqI)
  have "0 < (2::rat) powi e" by simp
  from this e(1) have "0 < \<bar>q\<bar>" by (rule less_le_trans)
  then have q: "q \<noteq> 0" by simp
  have m: "max e (- 1022) = e" using e(3) by simp
  have rn: "round_half_even (q / 2 powi (e - 52)) = n" using n by (rule round_half_even_eqI)
  from r have nr: "\<not> 2 ^ 1024 \<le> \<bar>of_int n * (2::rat) powi (e - 52)\<bar>" by (simp only: not_le)
  show ?thesis unfolding fl_def b m Let_def rn using q nr by (simp only: if_False)
qed


lemma binade_ge:
  assumes "2 powi m \<le> \<bar>q\<bar>"
  shows "m \<le> binade q"
proof -
  have "0 < (2::rat) powi m" by simp
  from this assms have "0 < \<bar>q\<bar>" by (rule less_le_trans)
  then have "q \<noteq> 0" by simp
  then have "\<bar>q\<bar> < 2 powi (binade q + 1)" by (rule binade_bounds)
  with assms have "(2::rat) powi m < 2 powi (binade q + 1)" by (rule le_less_trans)
  then have "m < binade q + 1" by (rule powi2_less_cancel)
  then show ?thesis by simp
qed

lemma binade_less:
  assumes "q \<noteq> 0" and "\<bar>q\<bar> < 2 powi m"
  shows "binade q < m"
proof -
  from assms(1) have "2 powi binade q \<le> \<bar>q\<bar>" by (rule binade_bounds)
  from this assms(2) have "(2::rat) powi binade q < 2 powi m" by (rule le_less_trans)
  then show ?thesis by (rule powi2_less_cancel)
qed

lemma fl_div_floor:
  fixes n d :: nat
  assumes n: "n < 2 ^ 53" and d: "0 < d" "d \<le> 4096"
  shows "\<exists>r. fl (of_nat n / of_nat d) = Finite r \<and> \<lfloor>r\<rfloor> = int (n div d)"
proof (cases "n = 0")
  case True
  then show ?thesis by (simp add: fl_def)
next
  case False
  define q :: rat where "q = of_nat n / of_nat d"
  define k :: int where "k = int (n div d)"
  define b where "b = binade q"
  define u :: rat where "u = 2 powi (b - 52)"
  define R where "R = round_half_even (q / u)"
  have dpos: "0 < (of_nat d :: rat)" using d by simp
  have npos: "0 < (of_nat n :: rat)" using False by simp
  have qpos: "0 < q" unfolding q_def using dpos npos by simp
  then have q0: "q \<noteq> 0" and aq: "\<bar>q\<bar> = q" by simp_all
  have "(of_nat d :: rat) \<le> of_nat n * 4096"
  proof -
    have "d \<le> n * 4096" using d False by (cases n) simp_all
    then have "(of_nat d :: rat) \<le> of_nat (n * 4096)" by (simp only: of_nat_le_iff)
    then show ?thesis by simp
  qed
  then have "1 / 4096 \<le> q" unfolding q_def using dpos by (simp add: field_simps)
  then have "2 powi (- 12) \<le> \<bar>q\<bar>" by (simp add: aq)
  then have b_lo: "- 12 \<le> b" unfolding b_def by (rule binade_ge)
  have qn: "q \<le> of_nat n"
  proof -
    have "(1::rat) \<le> of_nat d" using d by simp
    then have "of_nat n * 1 \<le> (of_nat n :: rat) * of_nat d" using npos by (intro mult_left_mono) simp_all
    then show ?thesis unfolding q_def using dpos by (simp add: field_simps)
  qed
  have nlt: "(of_nat n :: rat) < 2 ^ 53"
  proof -
    from n have "(of_nat n :: rat) < of_nat (2 ^ 53)" by (simp only: of_nat_less_iff)
    then show ?thesis by simp
  qed
  from qn nlt have "\<bar>q\<bar> < 2 powi 53" by (simp add: aq)
  with q0 have "b < 53" unfolding b_def by (rule binade_less)
  then have b_hi: "b \<le> 52" by simp
  have m: "max b (- 1022) = b" using b_lo by simp
  have upos: "0 < u" unfolding u_def by simp
  define N :: int where "N = 2 ^ nat (52 - b)"
  have uN: "u * of_int N = 1"
  proof -
    have "(of_int N :: rat) = 2 powi (52 - b)" unfolding N_def using b_hi by (simp add: power_int_def)
    moreover have "(2::rat) powi (b - 52) * 2 powi (52 - b) = 2 powi ((b - 52) + (52 - b))"
      by (rule power_int_add [symmetric]) simp
    ultimately show ?thesis unfolding u_def by simp
  qed
  have kq: "of_int k \<le> q"
  proof -
    have "d * (n div d) \<le> n" by simp
    then have "(of_nat (d * (n div d)) :: rat) \<le> of_nat n" by (simp only: of_nat_le_iff)
    then have "of_nat d * (of_int k :: rat) \<le> of_nat n" by (simp add: k_def)
    then show ?thesis unfolding q_def using dpos by (simp add: field_simps)
  qed
  have qk: "q + 1 / of_nat d \<le> of_int k + 1"
  proof -
    have "n < d * (n div d) + d" using d(1) by (metis add.commute mod_less_divisor mult.commute div_mult_mod_eq add_less_cancel_left)
    then have "n + 1 \<le> d * (n div d) + d" by simp
    then have "(of_nat (n + 1) :: rat) \<le> of_nat (d * (n div d) + d)" by (simp only: of_nat_le_iff)
    then have "of_nat n + 1 \<le> of_nat d * (of_int k :: rat) + of_nat d" by (simp add: k_def)
    then show ?thesis unfolding q_def using dpos by (simp add: field_simps)
  qed
  have "of_int (k * N) \<le> q / u"
  proof -
    have "of_int k * of_int N \<le> q * (of_int N :: rat)"
      using kq by (intro mult_right_mono) (simp_all add: N_def)
    also have "\<dots> = q / u" using uN upos by (simp add: field_simps)
    finally show ?thesis by simp
  qed
  then have "k * N \<le> R" unfolding R_def by (rule round_half_even_ge)
  then have "(of_int (k * N) :: rat) \<le> of_int R" by (simp only: of_int_le_iff)
  then have kNu: "of_int (k * N) * u \<le> of_int R * u" using upos by (intro mult_right_mono) simp_all
  have eq: "of_int (k * N) * u = (of_int k :: rat)"
  proof -
    have "of_int (k * N) * u = of_int k * (u * of_int N)" by simp
    then show ?thesis by (simp only: uN mult_1_right)
  qed
  have lo: "of_int k \<le> of_int R * u" using kNu unfolding eq .
  have "\<bar>of_int R - q / u\<bar> \<le> 1 / 2" unfolding R_def by (rule round_half_even_error)
  then have "of_int R \<le> q / u + 1 / 2" by linarith
  then have "of_int R * u \<le> (q / u + 1 / 2) * u" using upos by (intro mult_right_mono) simp_all
  moreover have "(q / u + 1 / 2) * u = q + u / 2" using upos by (simp add: distrib_right)
  ultimately have Ru: "of_int R * u \<le> q + u / 2" by (simp only:)
  have "u = 2 powi b * 2 powi (- 52)" unfolding u_def by (simp add: power_int_diff)
  moreover have "2 powi b \<le> q" using binade_bounds(1) [OF q0] by (simp add: b_def aq)
  ultimately have "u \<le> q * 2 powi (- 52)" by (simp add: mult_right_mono)
  then have "u / 2 \<le> q / 2 ^ 53" by simp
  also have "\<dots> < 1 / of_nat d"
  proof -
    have "q * of_nat d = of_nat n" unfolding q_def using dpos by simp
    with nlt have "q * of_nat d < 2 ^ 53" by simp
    then show ?thesis using dpos by (simp add: field_simps)
  qed
  finally have "u / 2 < 1 / of_nat d" .
  with Ru qk have hi: "of_int R * u < of_int k + 1" by linarith
  have k0: "0 \<le> k" by (simp add: k_def)
  have "of_int k + 1 \<le> (2::rat) ^ 53"
  proof -
    have "n div d \<le> n" by (rule div_le_dividend)
    with n have "n div d + 1 \<le> 2 ^ 53" by linarith
    then have "(of_nat (n div d + 1) :: rat) \<le> of_nat (2 ^ 53)" by (simp only: of_nat_le_iff)
    then show ?thesis by (simp add: k_def)
  qed
  with hi have "of_int R * u < (2::rat) ^ 53" by simp
  also have "(2::rat) ^ 53 \<le> 2 ^ 1024" by (rule power_increasing) simp_all
  finally have "of_int R * u < 2 ^ 1024" .
  moreover have "0 \<le> of_int R * u" using lo k0 by (meson of_int_0_le_iff order_trans)
  ultimately have nr: "\<not> 2 ^ 1024 \<le> \<bar>of_int R * u\<bar>" by (simp only: abs_of_nonneg not_le)
  have "fl q = Finite (of_int R * u)"
    unfolding fl_def Let_def using q0 nr by (simp only: b_def [symmetric] m u_def [symmetric] R_def [symmetric] if_False)
  moreover have "\<lfloor>of_int R * u\<rfloor> = k" using lo hi by (simp add: floor_unique)
  ultimately show ?thesis unfolding q_def k_def by blast
qed

lemma round_half_even_of_int: "round_half_even (of_int m) = m"
  by (rule round_half_even_eqI) simp

lemma fl_of_int:
  assumes "\<bar>n\<bar> < 2 ^ 53"
  shows "fl (of_int n) = Finite (of_int n)"
proof (cases "n = 0")
  case True
  then show ?thesis by (simp add: fl_def)
next
  case False
  define q :: rat where "q = of_int n"
  define b where "b = binade q"
  define N :: int where "N = 2 ^ nat (52 - b)"
  have q0: "q \<noteq> 0" using False by (simp add: q_def)
  have "1 \<le> \<bar>n\<bar>" using False by simp
  then have "(of_int 1 :: rat) \<le> of_int \<bar>n\<bar>" by (simp only: of_int_le_iff)
  then have "2 powi 0 \<le> \<bar>q\<bar>" by (simp add: q_def)
  then have b_lo: "0 \<le> b" unfolding b_def by (rule binade_ge)
  from assms have "(of_int \<bar>n\<bar> :: rat) < of_int (2 ^ 53)" by (simp only: of_int_less_iff)
  then have small: "\<bar>q\<bar> < 2 ^ 53" by (simp add: q_def)
  then have "\<bar>q\<bar> < 2 powi 53" by simp
  with q0 have "b < 53" unfolding b_def by (rule binade_less)
  then have b_hi: "b \<le> 52" by simp
  have m: "max b (- 1022) = b" using b_lo by simp
  have N: "(of_int N :: rat) = 2 powi (52 - b)" unfolding N_def using b_hi by (simp add: power_int_def)
  have "(2::rat) powi (b - 52) * 2 powi (52 - b) = 2 powi ((b - 52) + (52 - b))"
    by (rule power_int_add [symmetric]) simp
  then have uN: "2 powi (b - 52) * (of_int N :: rat) = 1" by (simp add: N)
  have "q / 2 powi (b - 52) = q * of_int N"
  proof -
    have "q / 2 powi (b - 52) = q * (2 powi (b - 52) * of_int N) / 2 powi (b - 52)"
      by (simp only: uN mult_1_right)
    then show ?thesis by simp
  qed
  then have "q / 2 powi (b - 52) = of_int (n * N)" by (simp add: q_def)
  then have R: "round_half_even (q / 2 powi (b - 52)) = n * N"
    by (simp only: round_half_even_of_int)
  have r: "of_int (n * N) * 2 powi (b - 52) = q"
  proof -
    have "of_int (n * N) * 2 powi (b - 52) = q * (2 powi (b - 52) * of_int N)"
      by (simp add: q_def)
    then show ?thesis by (simp only: uN mult_1_right)
  qed
  have "(2::rat) ^ 53 \<le> 2 ^ 1024" by (rule power_increasing) simp_all
  with small have "\<bar>q\<bar> < 2 ^ 1024" by (rule less_le_trans)
  then have nr: "\<not> 2 ^ 1024 \<le> \<bar>q\<bar>" by (simp only: not_le)
  have "fl q = Finite q"
    unfolding fl_def Let_def b_def [symmetric] m R r using q0 nr by (simp only: if_False)
  then show ?thesis by (simp only: q_def)
qed

lemma fl_nonneg:
  assumes "0 \<le> q"
  shows "\<not> num_lt (fl q) (Finite 0)"
proof (cases "q = 0")
  case True
  then show ?thesis by (simp add: fl_def)
next
  case False
  define u :: rat where "u = 2 powi (max (binade q) (- 1022) - 52)"
  have upos: "0 < u" unfolding u_def by simp
  with assms have "of_int 0 \<le> q / u" by simp
  then have "0 \<le> round_half_even (q / u)" by (rule round_half_even_ge)
  then have "0 \<le> (of_int (round_half_even (q / u)) :: rat) * u" using upos by simp
  then have "\<not> of_int (round_half_even (q / u)) * u < 0" by (simp only: not_less)
  then show ?thesis using False assms unfolding fl_def Let_def u_def [symmetric]
    by (simp del: power_int_diff)
qed

lemma num_div_3600_nonneg:
  assumes "\<not> num_lt x (Finite 0)"
  shows "\<not> num_lt (num_div x (Finite 3600)) (Finite 0)"
proof (cases x)
  case (Finite a)
  with assms have "0 \<le> a / 3600" by simp
  then have "\<not> num_lt (fl (a / 3600)) (Finite 0)" by (rule fl_nonneg)
  with Finite show ?thesis by simp
qed (use assms in \<open>simp_all add: signed_inf_def\<close>)

lemma setHourlyWage_rate_nonneg: "\<not> num_lt (perSecondWage (setHourlyWage S wage w)) (Finite 0)"
proof (cases "js_lt S wage (Finite 0)")
  case True
  then show ?thesis by (simp add: setHourlyWage_def js_div_def fl_def)
next
  case False
  then have "\<not> num_lt (ToNumber S wage) (Finite 0)" by (simp add: js_lt_def)
  then have "\<not> num_lt (num_div (ToNumber S wage) (Finite 3600)) (Finite 0)"
    by (rule num_div_3600_nonneg)
  with False show ?thesis by (simp add: setHourlyWage_def js_div_def)
qed

lemma wc_reachable_rate_nonneg:
  assumes "wc_reachable S w"
  shows "\<not> num_lt (perSecondWage w) (Finite 0)"
  using assms
proof (induction rule: wc_reachable.induct)
  case wc_new
  show ?case by (simp add: WageCounter_new_def)
next
  case (wc_setHourlyWage w wage)
  show ?case by (rule setHourlyWage_rate_nonneg)
next
  case (wc_started w now)
  then show ?case by (simp add: wc_start_def Let_def)
qed (simp_all add: setCurrentEarnings_def setElapsedTime_def updateCurrentEarnings_def
      setIsRunning_def setStartTime_def setPausedTime_def updateElapsedTime_def wc_stop_def
      wc_reset_def)

section \<open>The WageCounter\<close>

subsection \<open>The hourly wage\<close>

text \<open>A Number that is not negative is stored as it is and divided by 3600.\<close>

lemma setHourlyWage_nonneg_number:
  assumes "\<not> num_lt x (Finite 0)"
  shows "getPerSecondWage (setHourlyWage S (JNumber x) w) = num_div x (Finite 3600)"
  using assms by (simp add: getPerSecondWage_def setHourlyWage_def js_lt_def js_div_def)

text \<open>A wage that compares below 0 is replaced by 0.\<close>

lemma setHourlyWage_negative:
  assumes "js_lt S wage (Finite 0)"
  shows "getPerSecondWage (setHourlyWage S wage w) = Finite 0"
    and "getHourlyWage (setHourlyWage S wage w) = JNumber (Finite 0)"
  using assms
  by (simp_all add: getPerSecondWage_def getHourlyWage_def setHourlyWage_def js_div_def fl_def)

text \<open>
  The sibling method \<open>calculatePerSecondWage\<close> tests \<open>typeof\<close> and \<open>isNaN\<close> first and
  yields 0 for NaN and for \<open>undefined\<close>.
\<close>

lemma calculatePerSecondWage_NaN:
  "calculatePerSecondWage S (JNumber NaN) = Finite 0"
  "calculatePerSecondWage S JUndefined = Finite 0"
  by (simp_all add: calculatePerSecondWage_def js_isNaN_def)

text \<open>
  Claim C4, at the input NaN. \<open>setHourlyWage(NaN)\<close> returns normally, but the guard
  \<open>wage < 0\<close> is false for NaN: NaN is stored as the hourly wage and the rate per second
  is \<open>NaN / 3600 = NaN\<close>, not 0. The same happens for \<open>undefined\<close>.
\<close>

theorem setHourlyWage_NaN:
  "getPerSecondWage (setHourlyWage S (JNumber NaN) w) = NaN
   \<and> getHourlyWage (setHourlyWage S (JNumber NaN) w) = JNumber NaN
   \<and> getPerSecondWage (setHourlyWage S JUndefined w) = NaN"
  by (simp add: getPerSecondWage_def getHourlyWage_def setHourlyWage_def js_lt_def js_div_def)

subsection \<open>Invalid elapsed seconds\<close>

text \<open>
  Claim C3, as the program has it. For an argument \<open>s\<close> that is not a Number, is NaN or is
  negative, the amount computed for \<open>s\<close> is 0 and \<open>updateElapsedTime(s)\<close> sets the current
  earnings to 0; the argument itself is stored in \<open>elapsedSeconds\<close> unchecked.
\<close>

theorem updateElapsedTime_invalid:
  assumes "\<not> is_number s \<or> s = JNumber NaN \<or> (\<exists>x. s = JNumber x \<and> num_lt x (Finite 0))"
  shows "calculateEarningsForSeconds S w s = Finite 0
         \<and> getCurrentEarnings (updateElapsedTime S s w) = JNumber (Finite 0)
         \<and> getElapsedTime (updateElapsedTime S s w) = s"
proof -
  from assms have guard: "\<not> is_number s \<or> js_isNaN S s \<or> js_lt S s (Finite 0)"
    by (auto simp add: js_isNaN_def js_lt_def)
  then have "calculateEarningsForSeconds S v s = Finite 0" for v
    unfolding calculateEarningsForSeconds_def by (simp only: if_True)
  then show ?thesis
    by (simp add: getCurrentEarnings_def getElapsedTime_def updateElapsedTime_def
        updateCurrentEarnings_def)
qed

text \<open>The theorem at \<open>s = -5\<close> on a new counter.\<close>

theorem updateElapsedTime_invalid_witness:
  "num_lt (Finite (- 5)) (Finite 0)
   \<and> calculateEarningsForSeconds str_NaN WageCounter_new (JNumber (Finite (- 5))) = Finite 0
   \<and> getCurrentEarnings (updateElapsedTime str_NaN (JNumber (Finite (- 5))) WageCounter_new)
       = JNumber (Finite 0)
   \<and> getElapsedTime (updateElapsedTime str_NaN (JNumber (Finite (- 5))) WageCounter_new)
       = JNumber (Finite (- 5))"
  using updateElapsedTime_invalid [of "JNumber (Finite (- 5))" str_NaN WageCounter_new] by simp

text \<open>
  The stored seconds do go backward: after \<open>updateElapsedTime(10)\<close> the call
  \<open>updateElapsedTime(-5)\<close> leaves \<open>elapsedSeconds = -5\<close>.
\<close>

theorem updateElapsedTime_negative_counterexample:
  "getElapsedTime (updateElapsedTime str_NaN (JNumber (Finite 10)) WageCounter_new)
     = JNumber (Finite 10)
   \<and> num_lt (Finite (- 5)) (Finite 0)
   \<and> getElapsedTime
       (updateElapsedTime str_NaN (JNumber (Finite (- 5)))
          (updateElapsedTime str_NaN (JNumber (Finite 10)) WageCounter_new))
     = JNumber (Finite (- 5))
   \<and> getElapsedTime
       (updateElapsedTime str_NaN (JNumber (Finite (- 5)))
          (updateElapsedTime str_NaN (JNumber (Finite 10)) WageCounter_new))
     \<noteq> getElapsedTime (updateElapsedTime str_NaN (JNumber (Finite 10)) WageCounter_new)"
  by (simp add: getElapsedTime_def updateElapsedTime_def updateCurrentEarnings_def)

subsection \<open>The derived amount\<close>

lemma fl_1: "fl 1 = Finite 1"
  using fl_of_int [of 1] by simp

lemma fl_2: "fl 2 = Finite 2"
  using fl_of_int [of 2] by simp

lemma fl_10: "fl 10 = Finite 10"
  using fl_of_int [of 10] by simp

lemma fl_20: "fl 20 = Finite 20"
  using fl_of_int [of 20] by simp

text \<open>
  Against claim C2 as it is stated: with the wage 3600 and 10 elapsed seconds the earnings
  are 10; \<open>setHourlyWage(7200)\<close> then makes the rate 2 per second and leaves the earnings
  at 10, while rate times elapsed seconds is 20. The state is reachable and its earnings
  are not the product.
\<close>

theorem stale_earnings_counterexample:
  "wc_reachable str_NaN rate_changed_counter
   \<and> getCurrentEarnings rate_changed_counter = JNumber (Finite 10)
   \<and> getPerSecondWage rate_changed_counter = Finite 2
   \<and> getElapsedTime rate_changed_counter = JNumber (Finite 10)
   \<and> getCurrentEarnings rate_changed_counter
       \<noteq> JNumber (num_mul (getPerSecondWage rate_changed_counter)
                    (ToNumber str_NaN (getElapsedTime rate_changed_counter)))"
proof -
  have r: "wc_reachable str_NaN rate_changed_counter"
    unfolding rate_changed_counter_def
    by (intro wc_setHourlyWage wc_updateElapsedTime wc_new)
  have v: "getCurrentEarnings rate_changed_counter = JNumber (Finite 10)"
    "getPerSecondWage rate_changed_counter = Finite 2"
    "getElapsedTime rate_changed_counter = JNumber (Finite 10)"
    by (simp_all add: rate_changed_counter_def getCurrentEarnings_def getPerSecondWage_def
        getElapsedTime_def setHourlyWage_def updateElapsedTime_def updateCurrentEarnings_def
        calculateEarningsForSeconds_def js_lt_def js_div_def js_isNaN_def WageCounter_new_def
        fl_1 fl_2 fl_10)
  have "num_mul (Finite 2) (Finite 10) = Finite 20" by (simp add: fl_20)
  with r v show ?thesis by simp
qed

text \<open>
  Claim C2, as the program has it. In every reachable state of the WageCounter: right after
  \<open>updateElapsedTime(s)\<close> with a valid \<open>s\<close> (a Number, not NaN, not negative) the current
  earnings are the product of the rate per second and the elapsed seconds, as one binary64
  multiplication; after \<open>reset()\<close> the earnings and the elapsed seconds are both 0;
  \<open>setHourlyWage(r)\<close> changes the rate and leaves the earnings and the elapsed seconds as
  they were, until the next update.
\<close>

theorem earnings_after_update:
  assumes "wc_reachable S w"
    and "is_number s" and "\<not> js_isNaN S s" and "\<not> js_lt S s (Finite 0)"
  shows "getCurrentEarnings (updateElapsedTime S s w)
           = JNumber (num_mul (getPerSecondWage (updateElapsedTime S s w))
                        (ToNumber S (getElapsedTime (updateElapsedTime S s w))))
         \<and> getCurrentEarnings (wc_reset w) = JNumber (Finite 0)
         \<and> getElapsedTime (wc_reset w) = JNumber (Finite 0)
         \<and> getCurrentEarnings (setHourlyWage S r w) = getCurrentEarnings w
         \<and> getElapsedTime (setHourlyWage S r w) = getElapsedTime w"
proof -
  from assms(1) have "\<not> num_lt (perSecondWage w) (Finite 0)" by (rule wc_reachable_rate_nonneg)
  with assms(2-4) show ?thesis
    by (simp add: getCurrentEarnings_def getPerSecondWage_def getElapsedTime_def
        updateElapsedTime_def updateCurrentEarnings_def calculateEarningsForSeconds_def
        wc_reset_def setHourlyWage_def Let_def)
qed

text \<open>The theorem at the wage 3600 and \<open>s = 10\<close>: the earnings are 10.\<close>

theorem earnings_after_update_witness:
  "wc_reachable str_NaN (setHourlyWage str_NaN (JNumber (Finite 3600)) WageCounter_new)
   \<and> is_number (JNumber (Finite 10)) \<and> \<not> js_isNaN str_NaN (JNumber (Finite 10))
   \<and> \<not> js_lt str_NaN (JNumber (Finite 10)) (Finite 0)
   \<and> getCurrentEarnings
       (updateElapsedTime str_NaN (JNumber (Finite 10))
          (setHourlyWage str_NaN (JNumber (Finite 3600)) WageCounter_new))
     = JNumber (Finite 10)"
proof -
  have r: "wc_reachable str_NaN (setHourlyWage str_NaN (JNumber (Finite 3600)) WageCounter_new)"
    by (intro wc_setHourlyWage wc_new)
  have v: "is_number (JNumber (Finite 10))" "\<not> js_isNaN str_NaN (JNumber (Finite 10))"
    "\<not> js_lt str_NaN (JNumber (Finite 10)) (Finite 0)"
    by (simp_all add: js_isNaN_def js_lt_def)
  from earnings_after_update [OF r v] r v show ?thesis
    by (simp add: getPerSecondWage_def getElapsedTime_def setHourlyWage_def
        updateElapsedTime_def updateCurrentEarnings_def js_lt_def js_div_def
        WageCounter_new_def fl_1 fl_10)
qed

subsection \<open>Eight hours at 2500\<close>

lemma fl_25_36: "fl (25 / 36) = Finite (3127499741229511 / 4503599627370496)"
  using fl_eqI [of "- 1" "25 / 36" 6254999482459022] by simp

lemma fl_20000: "fl (3127499741229511 / 4503599627370496 * 28800) = Finite 20000"
  using fl_eqI [of 14 "3127499741229511 / 4503599627370496 * 28800" 5497558138880000] by simp

text \<open>
  Claim C9. With the hourly wage 2500 and 28800 elapsed seconds (8 hours) the accrued
  amount, computed as \<open>(2500 / 3600) * 28800\<close> in binary64 arithmetic with both roundings,
  is the Number 20000 itself: the error of the rounded quotient is small enough for the
  rounded product to land on 20000.
\<close>

theorem accrued_2500_for_8_hours:
  "getCurrentEarnings
     (updateElapsedTime S (JNumber (Finite 28800))
        (setHourlyWage S (JNumber (Finite 2500)) WageCounter_new))
   = JNumber (Finite 20000)"
proof -
  have rate: "getPerSecondWage (setHourlyWage S (JNumber (Finite 2500)) WageCounter_new)
      = Finite (3127499741229511 / 4503599627370496)"
    by (simp add: getPerSecondWage_def setHourlyWage_def js_lt_def js_div_def fl_25_36)
  then show ?thesis
    using fl_20000
    by (simp add: getCurrentEarnings_def updateElapsedTime_def updateCurrentEarnings_def
        calculateEarningsForSeconds_def js_isNaN_def js_lt_def getPerSecondWage_def)
qed

section \<open>The TimerManager\<close>

subsection \<open>Running flag and schedule handle\<close>

lemma setInterval_handle: "fst (setInterval d sc) \<noteq> 0"
  by (simp add: setInterval_def Let_def)

text \<open>No method assigns the field \<open>callback\<close>.\<close>

lemma tm_callback_start: "tm_callback (fst (snd (tm_start now x))) = tm_callback (fst x)"
  by (cases x)
    (simp add: tm_start_def setInterval_def Let_def split: outcome.splits prod.splits)

lemma tm_callback_stop: "tm_callback (fst (tm_stop now x)) = tm_callback (fst x)"
  by (cases x) (simp add: tm_stop_def Let_def split: option.splits)

lemma tm_callback_reset: "tm_callback (fst (tm_reset now x)) = tm_callback (fst x)"
  by (cases x) (simp add: tm_reset_def tm_stop_def Let_def split: option.splits prod.splits)

lemma tm_callback_setUpdateInterval:
  "tm_callback (fst (snd (setUpdateInterval i now1 now2 x))) = tm_callback (fst x)"
proof -
  obtain tm sc where x: "x = (tm, sc)" by (cases x)
  have "tm_callback (fst (snd (tm_start now2 (tm_stop now1 (tm\<lparr> updateInterval := j \<rparr>, sc)))))
      = tm_callback tm" for j
    by (simp add: tm_callback_start tm_callback_stop)
  then show ?thesis
    by (simp add: x setUpdateInterval_def Let_def split: jsval.splits)
qed

lemma tm_callback_tick: "tm_callback (fst (tm_tick alive now x)) = tm_callback (fst x)"
  by (simp add: tm_tick_def tm_callback_stop
      split: outcome.splits option.splits callback.splits)

text \<open>The operations keep \<open>tm_handle_inv\<close>.\<close>

lemma tm_handle_inv_new: "tm_handle_inv (TimerManager_new cb, sc)"
  by (simp add: tm_handle_inv_def TimerManager_new_def)

lemma tm_handle_inv_start: "tm_handle_inv x \<Longrightarrow> tm_handle_inv (snd (tm_start now x))"
  by (cases x)
    (auto simp add: tm_handle_inv_def tm_start_def setInterval_def Let_def
      split: outcome.splits)

lemma tm_handle_inv_stop: "tm_handle_inv x \<Longrightarrow> tm_handle_inv (tm_stop now x)"
  by (cases x) (auto simp add: tm_handle_inv_def tm_stop_def Let_def split: option.splits)

lemma tm_stop_not_running: "\<not> tm_isRunning (fst (tm_stop now x))"
  by (cases x) (simp add: tm_stop_def Let_def split: option.splits)

lemma tm_stop_releases:
  assumes "tm_handle_inv x"
  shows "tm_intervalId (fst (tm_stop now x)) = None"
  using tm_handle_inv_stop [OF assms, of now] tm_stop_not_running [of now x]
  by (cases "tm_stop now x") (auto simp add: tm_handle_inv_def)

lemma tm_handle_inv_reset: "tm_handle_inv x \<Longrightarrow> tm_handle_inv (tm_reset now x)"
proof -
  assume a: "tm_handle_inv x"
  obtain tm sc where x: "x = (tm, sc)" by (cases x)
  show ?thesis
  proof (cases "tm_isRunning tm")
    case True
    from a have "tm_handle_inv (tm_stop now x)" by (rule tm_handle_inv_stop)
    moreover have "\<not> tm_isRunning (fst (tm_stop now x))" by (rule tm_stop_not_running)
    ultimately show ?thesis using True
      by (cases "tm_stop now x") (auto simp add: x tm_reset_def tm_handle_inv_def)
  next
    case False
    with a show ?thesis by (auto simp add: x tm_reset_def tm_handle_inv_def)
  qed
qed

lemma tm_handle_inv_setUpdateInterval:
  "tm_handle_inv x \<Longrightarrow> tm_handle_inv (snd (setUpdateInterval i now1 now2 x))"
proof -
  assume a: "tm_handle_inv x"
  obtain tm sc where x: "x = (tm, sc)" by (cases x)
  have b: "tm_handle_inv (tm\<lparr> updateInterval := j \<rparr>, sc)" for j
    using a by (simp add: x tm_handle_inv_def)
  show ?thesis
    unfolding x setUpdateInterval_def
    by (auto simp add: Let_def a [unfolded x] b tm_handle_inv_start tm_handle_inv_stop
        split: jsval.splits)
qed

lemma tm_handle_inv_tick: "tm_handle_inv x \<Longrightarrow> tm_handle_inv (tm_tick alive now x)"
  by (simp add: tm_tick_def tm_handle_inv_stop
      split: outcome.splits option.splits callback.splits)

lemma tm_reachable_handle_inv: "tm_reachable x \<Longrightarrow> tm_handle_inv x"
proof (induction rule: tm_reachable.induct)
  case (tm_new cb sc)
  show ?case by (rule tm_handle_inv_new)
next
  case (tm_started x now)
  then show ?case by (simp add: tm_handle_inv_start)
next
  case (tm_stopped x now)
  then show ?case by (simp add: tm_handle_inv_stop)
next
  case (tm_was_reset x now)
  then show ?case by (simp add: tm_handle_inv_reset)
next
  case (tm_setUpdateInterval x i now1 now2)
  then show ?case by (simp add: tm_handle_inv_setUpdateInterval)
next
  case (tm_ticked x alive now)
  then show ?case by (simp add: tm_handle_inv_tick)
next
  case (tm_recordStartTime tm sc now)
  then show ?case by (simp add: tm_handle_inv_def recordStartTime_def)
next
  case (tm_recordPausedTime tm sc now)
  then show ?case by (auto simp add: tm_handle_inv_def recordPausedTime_def split: option.splits)
next
  case (tm_other_timer tm sc d)
  then show ?case by (auto simp add: tm_handle_inv_def setInterval_def Let_def)
next
  case (tm_other_clear tm sc h)
  then show ?case by (auto simp add: tm_handle_inv_def clearInterval_def)
qed

text \<open>
  When the weak reference to the callback can be made (the callback is a function, an
  object or a falsy value), the operations keep \<open>tm_inv\<close> as well.
\<close>

lemma tm_inv_new: "tm_inv (TimerManager_new cb, sc)"
  by (simp add: tm_inv_def tm_handle_inv_new) (simp add: TimerManager_new_def)

lemma tm_inv_start:
  assumes "tm_inv x" and "weakCallback (tm_callback (fst x)) \<noteq> Throws"
  shows "tm_inv (snd (tm_start now x))"
proof -
  obtain tm sc where x: "x = (tm, sc)" by (cases x)
  from assms(1) have "tm_handle_inv (snd (tm_start now x))"
    by (simp add: tm_inv_def tm_handle_inv_start)
  moreover have "tm_isRunning (fst (snd (tm_start now x)))
      \<longrightarrow> tm_intervalId (fst (snd (tm_start now x))) \<noteq> None"
    using assms
    by (auto simp add: x tm_inv_def tm_start_def setInterval_def Let_def split: outcome.splits)
  ultimately show ?thesis by (simp add: tm_inv_def)
qed

lemma tm_inv_stop: "tm_inv x \<Longrightarrow> tm_inv (tm_stop now x)"
  by (simp add: tm_inv_def tm_handle_inv_stop tm_stop_not_running)

lemma tm_reset_not_running: "\<not> tm_isRunning (fst (tm_reset now x))"
  by (simp add: tm_reset_def split: prod.splits)

lemma tm_inv_reset: "tm_inv x \<Longrightarrow> tm_inv (tm_reset now x)"
  by (simp add: tm_inv_def tm_handle_inv_reset tm_reset_not_running)

lemma tm_inv_setUpdateInterval:
  assumes "tm_inv x" and "weakCallback (tm_callback (fst x)) \<noteq> Throws"
  shows "tm_inv (snd (setUpdateInterval i now1 now2 x))"
proof -
  obtain tm sc where x: "x = (tm, sc)" by (cases x)
  have b: "tm_inv (tm\<lparr> updateInterval := j \<rparr>, sc)" for j
    using assms(1) by (simp add: x tm_inv_def tm_handle_inv_def)
  have c: "tm_inv (snd (tm_start now2 (tm_stop now1 (tm\<lparr> updateInterval := j \<rparr>, sc))))" for j
    using assms(2) by (intro tm_inv_start tm_inv_stop b) (simp add: tm_callback_stop x)
  show ?thesis
    unfolding x setUpdateInterval_def
    by (auto simp add: Let_def assms(1) [unfolded x] b c split: jsval.splits)
qed

lemma tm_inv_tick: "tm_inv x \<Longrightarrow> tm_inv (tm_tick alive now x)"
  by (simp add: tm_tick_def tm_inv_stop split: outcome.splits option.splits callback.splits)

lemma tm_reachable_inv:
  "tm_reachable x \<Longrightarrow> weakCallback (tm_callback (fst x)) \<noteq> Throws \<Longrightarrow> tm_inv x"
proof (induction rule: tm_reachable.induct)
  case (tm_new cb sc)
  show ?case by (rule tm_inv_new)
next
  case (tm_started x now)
  then show ?case by (simp add: tm_inv_start tm_callback_start)
next
  case (tm_stopped x now)
  then show ?case by (simp add: tm_inv_stop tm_callback_stop)
next
  case (tm_was_reset x now)
  then show ?case by (simp add: tm_inv_reset tm_callback_reset)
next
  case (tm_setUpdateInterval x i now1 now2)
  then show ?case by (simp add: tm_inv_setUpdateInterval tm_callback_setUpdateInterval)
next
  case (tm_ticked x alive now)
  then show ?case by (simp add: tm_inv_tick tm_callback_tick)
next
  case (tm_recordStartTime tm sc now)
  then show ?case by (simp add: tm_inv_def tm_handle_inv_def recordStartTime_def)
next
  case (tm_recordPausedTime tm sc now)
  then show ?case
    by (auto simp add: tm_inv_def tm_handle_inv_def recordPausedTime_def split: option.splits)
next
  case (tm_other_timer tm sc d)
  then show ?case by (auto simp add: tm_inv_def tm_handle_inv_def setInterval_def Let_def)
next
  case (tm_other_clear tm sc h)
  then show ?case by (auto simp add: tm_inv_def tm_handle_inv_def clearInterval_def)
qed

text \<open>
  For a timer whose callback is a function, an object that is not a function, or a falsy
  value, the running flag and the handle agree in every reachable state, a handle that is
  held is live in the timer table, and \<open>stop()\<close> and \<open>reset()\<close> leave the timer not
  running, with no handle, and their own schedule removed from the table.
\<close>

lemma running_iff_intervalId_weak_callback:
  assumes "tm_reachable (tm, sc)" and "weakCallback (tm_callback tm) \<noteq> Throws"
  shows "(tm_isRunning tm \<longleftrightarrow> tm_intervalId tm \<noteq> None)
         \<and> (\<forall>h. tm_intervalId tm = Some h \<longrightarrow> timers sc h \<noteq> None)"
  using tm_reachable_inv [OF assms(1)] assms(2) by (auto simp add: tm_inv_def tm_handle_inv_def)

lemma stop_reset_release_handle:
  assumes "tm_reachable (tm, sc)"
  shows "\<not> tm_isRunning (fst (tm_stop now (tm, sc)))
         \<and> tm_intervalId (fst (tm_stop now (tm, sc))) = None
         \<and> \<not> tm_isRunning (fst (tm_reset now (tm, sc)))
         \<and> tm_intervalId (fst (tm_reset now (tm, sc))) = None
         \<and> (\<forall>h. tm_intervalId tm = Some h \<longrightarrow>
                timers (snd (tm_stop now (tm, sc))) h = None
                \<and> timers (snd (tm_reset now (tm, sc))) h = None)"
proof -
  from assms have i: "tm_handle_inv (tm, sc)" by (rule tm_reachable_handle_inv)
  have 1: "tm_intervalId (fst (tm_stop now (tm, sc))) = None"
    using i by (rule tm_stop_releases)
  have "tm_handle_inv (tm_reset now (tm, sc))" using i by (rule tm_handle_inv_reset)
  with tm_reset_not_running [of now "(tm, sc)"]
  have 2: "tm_intervalId (fst (tm_reset now (tm, sc))) = None"
    by (cases "tm_reset now (tm, sc)") (auto simp add: tm_handle_inv_def)
  have 3: "\<forall>h. tm_intervalId tm = Some h \<longrightarrow>
      timers (snd (tm_stop now (tm, sc))) h = None
      \<and> timers (snd (tm_reset now (tm, sc))) h = None"
    using i
    by (auto simp add: tm_handle_inv_def tm_stop_def tm_reset_def clearInterval_def Let_def
        split: option.splits)
  from 1 2 3 show ?thesis by (simp add: tm_stop_not_running tm_reset_not_running)
qed

text \<open>
  Claim C10, at the timer that the test of the error handling constructs,
  \<open>new TimerManager('not a function')\<close>, started at the instant 1000. \<open>start()\<close> sets
  \<open>isRunning\<close> to true and then throws at \<open>new WeakRef(this.callback)\<close>, before
  \<open>setInterval\<close>: the timer is running, \<open>intervalId\<close> is \<open>null\<close> and no schedule is
  registered. A second \<open>start()\<close> returns at once and changes nothing. The test expects the
  first \<open>start()\<close> to return.
\<close>

theorem start_not_a_function:
  "fst (tm_start 1000 timer_not_a_function) = Throws
   \<and> tm_isRunning (fst (snd (tm_start 1000 timer_not_a_function)))
   \<and> tm_intervalId (fst (snd (tm_start 1000 timer_not_a_function))) = None
   \<and> timers (snd (snd (tm_start 1000 timer_not_a_function))) = Map.empty
   \<and> tm_start 2000 (snd (tm_start 1000 timer_not_a_function))
       = (Returns (), snd (tm_start 1000 timer_not_a_function))
   \<and> tm_reachable (snd (tm_start 1000 timer_not_a_function))"
proof -
  have r: "tm_reachable (snd (tm_start 1000 timer_not_a_function))"
    unfolding timer_not_a_function_def by (intro tm_started tm_new)
  have "fst (tm_start 1000 timer_not_a_function) = Throws"
    and "tm_isRunning (fst (snd (tm_start 1000 timer_not_a_function)))"
    and "tm_intervalId (fst (snd (tm_start 1000 timer_not_a_function))) = None"
    and "timers (snd (snd (tm_start 1000 timer_not_a_function))) = Map.empty"
    and "tm_start 2000 (snd (tm_start 1000 timer_not_a_function))
       = (Returns (), snd (tm_start 1000 timer_not_a_function))"
    by (simp_all add: timer_not_a_function_def tm_start_def weakCallback_def
        TimerManager_new_def Scheduler_empty_def Let_def)
  with r show ?thesis by simp
qed

subsection \<open>Stopping\<close>

text \<open>
  Claim C5, as the program has it. In every state of the TimerManager, \<open>stop()\<close> changes
  nothing when the timer is not running. When it runs, \<open>stop()\<close> sets \<open>isRunning\<close> to
  false and leaves \<open>startTime\<close>, the callback and the interval as they are: only \<open>reset()\<close>
  sets \<open>startTime\<close> to \<open>null\<close>. It adds \<open>now - startTime\<close> to \<open>pausedTime\<close> when there is
  a start instant other than 0, and leaves \<open>pausedTime\<close> when there is none. It clears
  the schedule whose handle it holds (\<open>clearInterval(intervalId)\<close>, \<open>intervalId = null\<close>);
  when it holds none, the timer table stays as it is. In every reachable state a running
  timer has a start instant and a handle that is held is not 0, so that after \<open>stop()\<close>
  the timer is not running and \<open>intervalId\<close> is \<open>null\<close>.
\<close>

theorem tm_stop_effect:
  "(\<not> tm_isRunning tm \<longrightarrow> tm_stop now (tm, sc) = (tm, sc))
   \<and> (tm_isRunning tm \<longrightarrow>
        \<not> tm_isRunning (fst (tm_stop now (tm, sc)))
        \<and> tm_startTime (fst (tm_stop now (tm, sc))) = tm_startTime tm
        \<and> tm_callback (fst (tm_stop now (tm, sc))) = tm_callback tm
        \<and> updateInterval (fst (tm_stop now (tm, sc))) = updateInterval tm
        \<and> (\<forall>a. tm_startTime tm = Some a \<and> a \<noteq> 0 \<longrightarrow>
               tm_pausedTime (fst (tm_stop now (tm, sc))) = tm_pausedTime tm + (now - a))
        \<and> (tm_startTime tm = None \<longrightarrow>
               tm_pausedTime (fst (tm_stop now (tm, sc))) = tm_pausedTime tm)
        \<and> (\<forall>h. tm_intervalId tm = Some h \<and> h \<noteq> 0 \<longrightarrow>
               tm_intervalId (fst (tm_stop now (tm, sc))) = None
               \<and> snd (tm_stop now (tm, sc)) = clearInterval h sc
               \<and> timers (snd (tm_stop now (tm, sc))) h = None)
        \<and> (tm_intervalId tm = None \<longrightarrow>
               tm_intervalId (fst (tm_stop now (tm, sc))) = None
               \<and> snd (tm_stop now (tm, sc)) = sc))
   \<and> (tm_reachable (tm, sc) \<longrightarrow>
        (tm_isRunning tm \<longrightarrow> tm_startTime tm \<noteq> None)
        \<and> (\<forall>h. tm_intervalId tm = Some h \<longrightarrow> h \<noteq> 0)
        \<and> \<not> tm_isRunning (fst (tm_stop now (tm, sc)))
        \<and> tm_intervalId (fst (tm_stop now (tm, sc))) = None)"
proof -
  have 1: "\<not> tm_isRunning tm \<longrightarrow> tm_stop now (tm, sc) = (tm, sc)"
    by (simp add: tm_stop_def)
  have 2: "tm_isRunning tm \<longrightarrow>
        \<not> tm_isRunning (fst (tm_stop now (tm, sc)))
        \<and> tm_startTime (fst (tm_stop now (tm, sc))) = tm_startTime tm
        \<and> tm_callback (fst (tm_stop now (tm, sc))) = tm_callback tm
        \<and> updateInterval (fst (tm_stop now (tm, sc))) = updateInterval tm
        \<and> (\<forall>a. tm_startTime tm = Some a \<and> a \<noteq> 0 \<longrightarrow>
               tm_pausedTime (fst (tm_stop now (tm, sc))) = tm_pausedTime tm + (now - a))
        \<and> (tm_startTime tm = None \<longrightarrow>
               tm_pausedTime (fst (tm_stop now (tm, sc))) = tm_pausedTime tm)
        \<and> (\<forall>h. tm_intervalId tm = Some h \<and> h \<noteq> 0 \<longrightarrow>
               tm_intervalId (fst (tm_stop now (tm, sc))) = None
               \<and> snd (tm_stop now (tm, sc)) = clearInterval h sc
               \<and> timers (snd (tm_stop now (tm, sc))) h = None)
        \<and> (tm_intervalId tm = None \<longrightarrow>
               tm_intervalId (fst (tm_stop now (tm, sc))) = None
               \<and> snd (tm_stop now (tm, sc)) = sc)"
    by (auto simp add: tm_stop_def Let_def clearInterval_def split: option.splits)
  have 3: "tm_reachable (tm, sc) \<longrightarrow>
        (tm_isRunning tm \<longrightarrow> tm_startTime tm \<noteq> None)
        \<and> (\<forall>h. tm_intervalId tm = Some h \<longrightarrow> h \<noteq> 0)
        \<and> \<not> tm_isRunning (fst (tm_stop now (tm, sc)))
        \<and> tm_intervalId (fst (tm_stop now (tm, sc))) = None"
  proof
    assume "tm_reachable (tm, sc)"
    then have i: "tm_handle_inv (tm, sc)" by (rule tm_reachable_handle_inv)
    from i have "tm_intervalId (fst (tm_stop now (tm, sc))) = None" by (rule tm_stop_releases)
    with i show "(tm_isRunning tm \<longrightarrow> tm_startTime tm \<noteq> None)
        \<and> (\<forall>h. tm_intervalId tm = Some h \<longrightarrow> h \<noteq> 0)
        \<and> \<not> tm_isRunning (fst (tm_stop now (tm, sc)))
        \<and> tm_intervalId (fst (tm_stop now (tm, sc))) = None"
      by (simp add: tm_handle_inv_def tm_stop_not_running)
  qed
  from 1 2 3 show ?thesis by (intro conjI)
qed

text \<open>
  The theorem on a timer with a function as callback, started at 1000 and stopped at 5000,
  and on the timer constructed with \<open>'not a function'\<close>, which runs without a handle.
\<close>

theorem tm_stop_effect_witness:
  "tm_reachable (snd (tm_start 1000 timer_function))
   \<and> tm_isRunning (fst (snd (tm_start 1000 timer_function)))
   \<and> tm_startTime (fst (snd (tm_start 1000 timer_function))) = Some 1000
   \<and> tm_intervalId (fst (snd (tm_start 1000 timer_function))) = Some 1
   \<and> tm_pausedTime (fst (tm_stop 5000 (snd (tm_start 1000 timer_function)))) = 4000
   \<and> \<not> tm_isRunning (fst (tm_stop 5000 (snd (tm_start 1000 timer_function))))
   \<and> tm_intervalId (fst (tm_stop 5000 (snd (tm_start 1000 timer_function)))) = None
   \<and> timers (snd (tm_stop 5000 (snd (tm_start 1000 timer_function)))) 1 = None
   \<and> tm_isRunning (fst (snd (tm_start 1000 timer_not_a_function)))
   \<and> tm_intervalId (fst (snd (tm_start 1000 timer_not_a_function))) = None
   \<and> \<not> tm_isRunning (fst (tm_stop 5000 (snd (tm_start 1000 timer_not_a_function))))
   \<and> tm_pausedTime (fst (tm_stop 5000 (snd (tm_start 1000 timer_not_a_function)))) = 4000"
proof -
  let ?x = "snd (tm_start 1000 timer_function)"
  let ?y = "snd (tm_start 1000 timer_not_a_function)"
  have r: "tm_reachable ?x" unfolding timer_function_def by (intro tm_started tm_new)
  have h: "tm_isRunning (fst ?x)" "tm_startTime (fst ?x) = Some 1000"
    "tm_intervalId (fst ?x) = Some 1" "tm_pausedTime (fst ?x) = 0"
    by (simp_all add: timer_function_def tm_start_def weakCallback_def TimerManager_new_def
        Scheduler_empty_def setInterval_def Let_def)
  have k: "tm_isRunning (fst ?y)" "tm_startTime (fst ?y) = Some 1000"
    "tm_intervalId (fst ?y) = None" "tm_pausedTime (fst ?y) = 0"
    by (simp_all add: timer_not_a_function_def tm_start_def weakCallback_def
        TimerManager_new_def Scheduler_empty_def Let_def)
  note tx = tm_stop_effect [of "fst ?x" 5000 "snd ?x", unfolded prod.collapse]
  note ty = tm_stop_effect [of "fst ?y" 5000 "snd ?y", unfolded prod.collapse]
  from tx h have x1: "\<not> tm_isRunning (fst (tm_stop 5000 ?x))"
    and x2: "tm_pausedTime (fst (tm_stop 5000 ?x)) = 4000"
    and x3: "tm_intervalId (fst (tm_stop 5000 ?x)) = None"
    and x4: "timers (snd (tm_stop 5000 ?x)) 1 = None"
    by (simp_all add: clearInterval_def)
  from ty k have y1: "\<not> tm_isRunning (fst (tm_stop 5000 ?y))"
    and y2: "tm_pausedTime (fst (tm_stop 5000 ?y)) = 4000"
    by simp_all
  from r h k x1 x2 x3 x4 y1 y2 show ?thesis by (intro conjI)
qed

text \<open>Against claim C5 as it is stated: after \<open>stop()\<close> the start instant is still there.\<close>

theorem tm_stop_keeps_startTime_counterexample:
  "tm_isRunning (fst (snd (tm_start 1000 timer_function)))
   \<and> tm_startTime (fst (tm_stop 5000 (snd (tm_start 1000 timer_function)))) = Some 1000
   \<and> tm_startTime (fst (tm_stop 5000 (snd (tm_start 1000 timer_function)))) \<noteq> None"
  by (simp add: timer_function_def tm_start_def tm_stop_def weakCallback_def
      TimerManager_new_def Scheduler_empty_def setInterval_def Let_def)

subsection \<open>Pause and resume\<close>

text \<open>
  Claim C6. A new timer, with any callback, is started at \<open>a1\<close>, stopped at \<open>b1\<close>, started
  again at \<open>a2\<close> and read at \<open>b2\<close>, the clock showing instants after the epoch and not
  running backward. The elapsed seconds read are those of the two running segments
  together, \<open>(b1 - a1) + (b2 - a2)\<close> milliseconds: the pause from \<open>b1\<close> to \<open>a2\<close> adds
  nothing, however long it is (the same run with the pause longer by \<open>d\<close> reads the same).
\<close>

theorem pause_resume_accumulates:
  assumes "0 < a1" and "a1 \<le> b1" and "b1 \<le> a2" and "a2 \<le> b2" and "0 \<le> d"
  shows "totalElapsed b2
           (fst (snd (tm_start a2 (tm_stop b1 (snd (tm_start a1 (TimerManager_new cb, sc)))))))
         = (b1 - a1) + (b2 - a2)
         \<and> getElapsedSeconds b2
             (fst (snd (tm_start a2 (tm_stop b1 (snd (tm_start a1 (TimerManager_new cb, sc)))))))
           = ((b1 - a1) + (b2 - a2)) div 1000
         \<and> getElapsedSeconds (b2 + d)
             (fst (snd (tm_start (a2 + d)
                          (tm_stop b1 (snd (tm_start a1 (TimerManager_new cb, sc)))))))
           = getElapsedSeconds b2
               (fst (snd (tm_start a2
                            (tm_stop b1 (snd (tm_start a1 (TimerManager_new cb, sc)))))))"
proof -
  have e: "totalElapsed t2
           (fst (snd (tm_start t1 (tm_stop b1 (snd (tm_start a1 (TimerManager_new cb, sc)))))))
         = (b1 - a1) + (t2 - t1)" if "0 < t1" for t1 t2
    using assms(1) that
    by (simp add: totalElapsed_def tm_start_def tm_stop_def
        TimerManager_new_def setInterval_def clearInterval_def Let_def
        split: outcome.splits)
  from assms have p: "0 < a2" "0 < a2 + d" by simp_all
  from e [OF p(1), of b2] e [OF p(2), of "b2 + d"] show ?thesis
    by (simp add: getElapsedSeconds_def)
qed

text \<open>The theorem on the run start 1000, stop 6000, start 7000, read 10000: 8 seconds.\<close>

theorem pause_resume_accumulates_witness:
  "totalElapsed 10000
     (fst (snd (tm_start 7000 (tm_stop 6000 (snd (tm_start 1000 timer_function)))))) = 8000
   \<and> getElapsedSeconds 10000
       (fst (snd (tm_start 7000 (tm_stop 6000 (snd (tm_start 1000 timer_function)))))) = 8
   \<and> getElapsedSeconds 70000
       (fst (snd (tm_start 67000 (tm_stop 6000 (snd (tm_start 1000 timer_function)))))) = 8"
  using pause_resume_accumulates [of 1000 6000 7000 10000 60000 CbFunction Scheduler_empty]
  by (simp add: timer_function_def)

text \<open>
  The test \<open>if (this.startTime)\<close> of \<open>stop()\<close> is a truthiness test, so a segment started
  at the instant 0 itself, the epoch, which the clock of a running program does not show,
  would not be added.
\<close>

lemma pause_resume_epoch:
  "getElapsedSeconds 9000
     (fst (snd (tm_start 6000 (tm_stop 5000 (snd (tm_start 0 timer_function)))))) = 3"
  by (simp add: getElapsedSeconds_def totalElapsed_def tm_start_def tm_stop_def
      timer_function_def weakCallback_def TimerManager_new_def setInterval_def
      clearInterval_def Let_def Scheduler_empty_def)

subsection \<open>Monotonicity\<close>

lemma totalElapsed_mono:
  assumes "t1 \<le> t2" and "started_by t1 tm"
  shows "totalElapsed t1 tm \<le> totalElapsed t2 tm"
  using assms by (auto simp add: totalElapsed_def started_by_def split: option.splits)

lemma started_by_mono: "started_by t tm \<Longrightarrow> t \<le> l \<Longrightarrow> started_by l tm"
  by (auto simp add: started_by_def)

lemma tm_start_step:
  assumes "started_by t tm" and "t \<le> now"
  shows "started_by now (fst (snd (tm_start now (tm, sc))))
         \<and> totalElapsed t tm \<le> totalElapsed now (fst (snd (tm_start now (tm, sc))))"
  using assms
  by (auto simp add: started_by_def totalElapsed_def tm_start_def setInterval_def Let_def
      split: option.splits outcome.splits)

lemma tm_stop_step:
  assumes "started_by t tm" and "t \<le> now"
  shows "started_by now (fst (tm_stop now (tm, sc)))
         \<and> totalElapsed t tm \<le> totalElapsed now (fst (tm_stop now (tm, sc)))"
  using assms
  by (auto simp add: started_by_def totalElapsed_def tm_stop_def Let_def split: option.splits)

text \<open>The restart of \<open>setUpdateInterval\<close> keeps the milliseconds accumulated so far.\<close>

lemma totalElapsed_restart:
  assumes "now1 \<le> now2"
  shows "totalElapsed now1 tm
         \<le> totalElapsed now2 (fst (snd (setUpdateInterval i now1 now2 (tm, sc))))"
  using assms
  by (auto simp add: totalElapsed_def setUpdateInterval_def tm_start_def tm_stop_def
      setInterval_def Let_def split: option.splits jsval.splits outcome.splits)

lemma setUpdateInterval_started_by:
  assumes "started_by t tm" and "t \<le> now1" and "now1 \<le> now2"
  shows "started_by now2 (fst (snd (setUpdateInterval i now1 now2 (tm, sc))))"
  using assms
  by (auto simp add: started_by_def setUpdateInterval_def tm_start_def tm_stop_def
      setInterval_def Let_def split: option.splits jsval.splits if_splits outcome.splits)

lemma recordPausedTime_step:
  assumes "started_by t tm" and "t \<le> now"
  shows "started_by now (recordPausedTime now tm)
         \<and> totalElapsed t tm \<le> totalElapsed now (recordPausedTime now tm)"
  using assms
  by (auto simp add: started_by_def totalElapsed_def recordPausedTime_def split: option.splits)

lemma tm_tick_step:
  assumes "started_by t tm" and "t \<le> now"
  shows "started_by now (fst (tm_tick alive now (tm, sc)))
         \<and> totalElapsed t tm \<le> totalElapsed now (fst (tm_tick alive now (tm, sc)))"
  using tm_stop_step [OF assms, of sc] totalElapsed_mono [OF assms(2,1)]
    started_by_mono [OF assms]
  by (simp add: tm_tick_def split: outcome.splits option.splits callback.splits)

text \<open>One call, made no earlier than \<open>t\<close>, does not decrease the elapsed time.\<close>

lemma run_call_step:
  assumes "started_by t tm"
  shows "clock_ordered t (c # cs) t' \<Longrightarrow>
         \<exists>l. t \<le> l \<and> clock_ordered l cs t'
           \<and> started_by l (fst (run_call c (tm, sc)))
           \<and> totalElapsed t tm \<le> totalElapsed l (fst (run_call c (tm, sc)))"
proof (cases c)
  case (CallStart now)
  assume "clock_ordered t (c # cs) t'"
  with CallStart have o: "t \<le> now" "clock_ordered now cs t'" by simp_all
  from tm_start_step [OF assms o(1), of sc] o CallStart show ?thesis by auto
next
  case (CallStop now)
  assume "clock_ordered t (c # cs) t'"
  with CallStop have o: "t \<le> now" "clock_ordered now cs t'" by simp_all
  from tm_stop_step [OF assms o(1), of sc] o CallStop show ?thesis by auto
next
  case (CallSetUpdateInterval i now1 now2)
  assume "clock_ordered t (c # cs) t'"
  with CallSetUpdateInterval have o: "t \<le> now1" "now1 \<le> now2" "clock_ordered now2 cs t'"
    by simp_all
  have "started_by now2 (fst (snd (setUpdateInterval i now1 now2 (tm, sc))))"
    using assms o(1,2) by (rule setUpdateInterval_started_by)
  moreover have "totalElapsed t tm \<le> totalElapsed now1 tm"
    using o(1) assms by (rule totalElapsed_mono)
  then have "totalElapsed t tm
      \<le> totalElapsed now2 (fst (snd (setUpdateInterval i now1 now2 (tm, sc))))"
    using totalElapsed_restart [OF o(2), of tm i sc] by simp
  moreover have "t \<le> now2" using o(1,2) by simp
  ultimately show ?thesis using o(3) CallSetUpdateInterval
    by (intro exI [of _ now2]) simp
next
  case (CallRecordPausedTime now)
  assume "clock_ordered t (c # cs) t'"
  with CallRecordPausedTime have o: "t \<le> now" "clock_ordered now cs t'" by simp_all
  from recordPausedTime_step [OF assms o(1)] o CallRecordPausedTime show ?thesis by auto
next
  case (CallTick alive now)
  assume "clock_ordered t (c # cs) t'"
  with CallTick have o: "t \<le> now" "clock_ordered now cs t'" by simp_all
  from tm_tick_step [OF assms o(1), of alive sc] o CallTick show ?thesis by auto
qed

lemma run_calls_totalElapsed:
  assumes "clock_ordered t cs t'" and "started_by t tm"
  shows "totalElapsed t tm \<le> totalElapsed t' (fst (run_calls cs (tm, sc)))"
  using assms
proof (induction cs arbitrary: t tm sc)
  case Nil
  then show ?case by (simp add: totalElapsed_mono)
next
  case (Cons c cs)
  from run_call_step [OF Cons.prems(2) Cons.prems(1), of sc] obtain l where
    l: "clock_ordered l cs t'" "started_by l (fst (run_call c (tm, sc)))"
      "totalElapsed t tm \<le> totalElapsed l (fst (run_call c (tm, sc)))"
    by blast
  obtain tm1 sc1 where x: "run_call c (tm, sc) = (tm1, sc1)" by (cases "run_call c (tm, sc)")
  from l(1) l(2) [unfolded x] have "totalElapsed l tm1 \<le> totalElapsed t' (fst (run_calls cs (tm1, sc1)))"
    by (simp add: Cons.IH)
  with l(3) show ?case by (simp add: x)
qed

text \<open>
  Against claim C7 as it is stated: a timer started at 1000 reads 4 seconds at 5000;
  \<open>recordStartTime()\<close> is called at 5500; the read at 6000 gives 0 seconds. The clock
  runs forward and there is no \<open>reset()\<close> between the two reads.
\<close>

theorem recordStartTime_counterexample:
  "(5000::int) < 6000
   \<and> getElapsedSeconds 5000 (fst (snd (tm_start 1000 timer_function))) = 4
   \<and> getElapsedSeconds 6000
       (recordStartTime 5500 (fst (snd (tm_start 1000 timer_function)))) = 0
   \<and> getElapsedSeconds 6000
         (recordStartTime 5500 (fst (snd (tm_start 1000 timer_function))))
       < getElapsedSeconds 5000 (fst (snd (tm_start 1000 timer_function)))"
  by (simp add: getElapsedSeconds_def totalElapsed_def recordStartTime_def timer_function_def
      tm_start_def weakCallback_def TimerManager_new_def Scheduler_empty_def setInterval_def
      Let_def)

text \<open>
  Claim C7, as the program has it. Let the clock not run backward: the start instant held,
  if any, is no later than the first read at \<open>t1\<close>, \<open>t1 < t2\<close>, and the calls made between
  the two reads read the clock in order. The calls are \<open>start\<close>, \<open>stop\<close>,
  \<open>setUpdateInterval\<close>, \<open>recordPausedTime\<close> and the ticks of the schedule, in any number
  and order, whether they return or throw, but neither \<open>reset\<close> nor \<open>recordStartTime\<close>.
  Then the elapsed seconds read at \<open>t1\<close> are at most those read at \<open>t2\<close>: in particular with
  no call in between, and across the stop and start of \<open>setUpdateInterval\<close>. That restart
  loses nothing: the milliseconds accumulated when its \<open>stop()\<close> reads the clock (\<open>now1\<close>)
  are all there when its \<open>start()\<close> does (\<open>now2\<close>).
\<close>

theorem elapsed_monotone:
  assumes "t1 < t2" and "clock_ordered t1 cs t2" and "started_by t1 tm"
  shows "getElapsedSeconds t1 tm \<le> getElapsedSeconds t2 (fst (run_calls cs (tm, sc)))
         \<and> (now1 \<le> now2 \<longrightarrow>
               totalElapsed now1 tm
                 \<le> totalElapsed now2 (fst (snd (setUpdateInterval i now1 now2 (tm, sc)))))"
proof -
  from assms(2,3) have "totalElapsed t1 tm \<le> totalElapsed t2 (fst (run_calls cs (tm, sc)))"
    by (rule run_calls_totalElapsed)
  then have "getElapsedSeconds t1 tm \<le> getElapsedSeconds t2 (fst (run_calls cs (tm, sc)))"
    unfolding getElapsedSeconds_def by (rule zdiv_mono1) simp
  then show ?thesis by (simp add: totalElapsed_restart)
qed

text \<open>
  The theorem on a timer started at 1000, read at 2500 and 7800, and in between restarted
  at 4000, stopped at 5000 and started again at 6000.
\<close>

theorem elapsed_monotone_witness:
  "(2500::int) < 7800
   \<and> clock_ordered 2500
       [CallSetUpdateInterval (JNumber (Finite 5000)) 4000 4001, CallStop 5000, CallStart 6000]
       7800
   \<and> tm_startTime (fst (snd (tm_start 1000 timer_function))) = Some 1000
   \<and> getElapsedSeconds 2500 (fst (snd (tm_start 1000 timer_function))) = 1
   \<and> getElapsedSeconds 7800
        (fst (run_calls
                [CallSetUpdateInterval (JNumber (Finite 5000)) 4000 4001, CallStop 5000,
                 CallStart 6000]
                (snd (tm_start 1000 timer_function)))) = 5
   \<and> getElapsedSeconds 2500 (fst (snd (tm_start 1000 timer_function)))
       \<le> getElapsedSeconds 7800
            (fst (run_calls
                    [CallSetUpdateInterval (JNumber (Finite 5000)) 4000 4001, CallStop 5000,
                     CallStart 6000]
                    (snd (tm_start 1000 timer_function))))"
proof -
  let ?x = "snd (tm_start 1000 timer_function)"
  let ?cs = "[CallSetUpdateInterval (JNumber (Finite 5000)) 4000 4001, CallStop 5000,
              CallStart 6000]"
  have s: "tm_startTime (fst ?x) = Some 1000"
    by (simp add: timer_function_def tm_start_def weakCallback_def TimerManager_new_def
        setInterval_def Let_def)
  have wf: "started_by 2500 (fst ?x)" by (simp add: started_by_def s)
  have o: "clock_ordered 2500 ?cs 7800" by simp
  have v1: "getElapsedSeconds 2500 (fst ?x) = 1"
    by (simp add: getElapsedSeconds_def totalElapsed_def timer_function_def tm_start_def
        weakCallback_def TimerManager_new_def setInterval_def Let_def)
  have v3: "getElapsedSeconds 7800 (fst (run_calls ?cs ?x)) = 5"
    by (simp add: getElapsedSeconds_def totalElapsed_def setUpdateInterval_def
        timer_function_def tm_start_def tm_stop_def weakCallback_def TimerManager_new_def
        Scheduler_empty_def setInterval_def clearInterval_def Let_def)
  have "getElapsedSeconds 2500 (fst ?x)
       \<le> getElapsedSeconds 7800 (fst (run_calls ?cs (fst ?x, snd ?x)))"
    using elapsed_monotone [of 2500 7800 ?cs "fst ?x" "snd ?x"] wf o by simp
  then have "getElapsedSeconds 2500 (fst ?x) \<le> getElapsedSeconds 7800 (fst (run_calls ?cs ?x))"
    by (simp only: prod.collapse)
  with s o v1 v3 show ?thesis by (intro conjI) simp_all
qed

section \<open>The WageCounterApp\<close>

lemma initialize_running:
  "wc_isRunning (wageCounter (initialize S stored app)) = wc_isRunning (wageCounter app)"
  by (simp add: initialize_def loadSavedSettings_def app_setHourlyWage_def setHourlyWage_def
      Let_def split: stored_wage.splits)

lemma initialize_timer:
  "timerManager (initialize S stored app)
     = (if isInitialized app then timerManager app else Some (TimerManager_new CbFunction))"
  by (simp add: initialize_def loadSavedSettings_def app_setHourlyWage_def
      split: stored_wage.splits)

text \<open>
  Claim C1, as the program has it. \<open>start()\<close> initialises the application when needed,
  which sets the wage that was loaded. When the hourly wage is then \<open><= 0\<close>, \<open>start()\<close> returns
  false and starts nothing: the result state is the initialised application (the
  application itself when it was initialised already), the running flag of the WageCounter is
  what it was, and a TimerManager created by this call is not running. So when the
  WageCounter was not running before the call, \<open>getState().isRunning\<close> is false after it.
\<close>

theorem start_refused:
  assumes "js_le S (getHourlyWage (wageCounter (initialize S stored app))) (Finite 0)"
  shows "app_start S stored now (app, sc) = (Returns False, initialize S stored app, sc)
         \<and> (isInitialized app \<longrightarrow> initialize S stored app = app)
         \<and> wc_isRunning (wageCounter (initialize S stored app)) = wc_isRunning (wageCounter app)
         \<and> (\<not> isInitialized app \<longrightarrow>
               timerManager (initialize S stored app) = Some (TimerManager_new CbFunction)
               \<and> \<not> tm_isRunning (TimerManager_new CbFunction))
         \<and> (\<not> wc_isRunning (wageCounter app) \<longrightarrow>
               \<not> st_isRunning (getState S (fst (snd (app_start S stored now (app, sc))))))"
proof -
  have 1: "app_start S stored now (app, sc) = (Returns False, initialize S stored app, sc)"
    using assms by (auto simp add: app_start_def Let_def initialize_def)
  have 2: "isInitialized app \<longrightarrow> initialize S stored app = app"
    by (simp add: initialize_def)
  have 3: "\<not> isInitialized app \<longrightarrow>
      timerManager (initialize S stored app) = Some (TimerManager_new CbFunction)
      \<and> \<not> tm_isRunning (TimerManager_new CbFunction)"
    by (simp add: initialize_timer TimerManager_new_def)
  have 4: "\<not> wc_isRunning (wageCounter app) \<longrightarrow>
      \<not> st_isRunning (getState S (fst (snd (app_start S stored now (app, sc)))))"
    unfolding 1 by (simp add: getState_def getIsRunning_def initialize_running)
  from 1 2 3 4 show ?thesis by (simp add: initialize_running)
qed

text \<open>The theorem on a new application with nothing saved: the wage is 0.\<close>

theorem start_refused_witness:
  "js_le str_NaN
     (getHourlyWage (wageCounter (initialize str_NaN nothing_saved WageCounterApp_new))) (Finite 0)
   \<and> app_start str_NaN nothing_saved 1000 (WageCounterApp_new, Scheduler_empty)
       = (Returns False, initialize str_NaN nothing_saved WageCounterApp_new, Scheduler_empty)
   \<and> \<not> st_isRunning
         (getState str_NaN
            (fst (snd (app_start str_NaN nothing_saved 1000
                         (WageCounterApp_new, Scheduler_empty)))))"
proof -
  have g: "js_le str_NaN
     (getHourlyWage (wageCounter (initialize str_NaN nothing_saved WageCounterApp_new))) (Finite 0)"
    by (simp add: js_le_def num_le_def getHourlyWage_def initialize_def loadSavedSettings_def
        nothing_saved_def app_setHourlyWage_def setHourlyWage_def js_lt_def Let_def
        WageCounterApp_new_def WageCounter_new_def)
  have n: "\<not> wc_isRunning (wageCounter WageCounterApp_new)"
    by (simp add: WageCounterApp_new_def WageCounter_new_def)
  note t = start_refused [OF g, of 1000 Scheduler_empty]
  from t have a: "app_start str_NaN nothing_saved 1000 (WageCounterApp_new, Scheduler_empty)
      = (Returns False, initialize str_NaN nothing_saved WageCounterApp_new, Scheduler_empty)"
    by (rule conjunct1)
  from t n have b: "\<not> st_isRunning
      (getState str_NaN
         (fst (snd (app_start str_NaN nothing_saved 1000 (WageCounterApp_new, Scheduler_empty)))))"
    by blast
  from g a b show ?thesis by (intro conjI)
qed

text \<open>
  Against claim C1 as it is stated: an application that runs and whose wage is set to 0
  refuses \<open>start()\<close> and goes on running, \<open>getState().isRunning\<close> is true after the call.
\<close>

theorem start_refused_while_running_counterexample:
  "js_le str_NaN (getHourlyWage (wageCounter (fst running_app_rate_0))) (Finite 0)
   \<and> fst (app_start str_NaN nothing_saved 2000 running_app_rate_0) = Returns False
   \<and> st_isRunning
       (getState str_NaN (fst (snd (app_start str_NaN nothing_saved 2000 running_app_rate_0))))
   \<and> map_option tm_isRunning
       (timerManager (fst (snd (app_start str_NaN nothing_saved 2000 running_app_rate_0))))
       = Some True"
  by (simp add: running_app_rate_0_def running_app_def app_start_def app_setHourlyWage_def
      initialize_def loadSavedSettings_def nothing_saved_def WageCounterApp_new_def
      WageCounter_new_def setHourlyWage_def js_lt_def js_le_def num_le_def js_div_def
      getHourlyWage_def wc_start_def tm_start_def weakCallback_def TimerManager_new_def setInterval_def
      Scheduler_empty_def getState_def getIsRunning_def Let_def fl_1 fl_def)

text \<open>
  A new application has the wage 0; when a valid wage is saved, \<open>start()\<close> loads it in
  its initialisation and starts.
\<close>

lemma start_loads_saved_rate:
  "js_le str_NaN (getHourlyWage (wageCounter WageCounterApp_new)) (Finite 0)
   \<and> fst (app_start str_NaN (LoadedValid (Finite 3600)) 1000
            (WageCounterApp_new, Scheduler_empty)) = Returns True
   \<and> st_isRunning
       (getState str_NaN
          (fst (snd (app_start str_NaN (LoadedValid (Finite 3600)) 1000
                       (WageCounterApp_new, Scheduler_empty)))))"
  by (simp add: app_start_def app_setHourlyWage_def
      initialize_def loadSavedSettings_def WageCounterApp_new_def WageCounter_new_def
      setHourlyWage_def js_lt_def js_le_def num_le_def js_div_def getHourlyWage_def
      wc_start_def tm_start_def weakCallback_def TimerManager_new_def setInterval_def Scheduler_empty_def
      getState_def getIsRunning_def Let_def fl_1)

text \<open>
  With nothing saved, the initialisation sets the wage to the default 0, also when a wage
  was set before: \<open>setHourlyWage(3600)\<close> followed by the first \<open>start()\<close> is refused.
\<close>

lemma start_resets_unsaved_rate:
  "fst (app_start str_NaN nothing_saved 1000
          (app_setHourlyWage str_NaN (JNumber (Finite 3600)) WageCounterApp_new,
           Scheduler_empty)) = Returns False"
  by (simp add: app_start_def app_setHourlyWage_def
      initialize_def loadSavedSettings_def nothing_saved_def WageCounterApp_new_def
      WageCounter_new_def setHourlyWage_def js_lt_def js_le_def num_le_def js_div_def
      getHourlyWage_def Let_def fl_1 fl_def)

section \<open>The formatted elapsed time\<close>

lemma num_mod_nat:
  fixes n d :: nat
  assumes "0 < d"
  shows "num_mod (Finite (of_nat n)) (Finite (of_nat d)) = Finite (of_nat (n mod d))"
proof -
  have nn: "0 \<le> (of_nat n :: rat) / of_nat d" by simp
  have "\<lfloor>(of_nat n :: rat) / of_nat d\<rfloor> = int (n div d)"
    by (simp add: floor_divide_of_nat_eq)
  then have t: "trunc_rat (of_nat n / of_nat d) = int (n div d)"
    using nn by (simp add: trunc_rat_def)
  have "(of_nat n :: rat) - of_nat d * of_int (int (n div d)) = of_nat (n mod d)"
  proof -
    have "(of_nat (d * (n div d) + n mod d) :: rat) = of_nat n" by simp
    then have "of_nat d * of_nat (n div d) + of_nat (n mod d) = (of_nat n :: rat)"
      by (simp only: of_nat_add of_nat_mult)
    then show ?thesis by simp
  qed
  then show ?thesis using assms by (simp add: t)
qed

lemma num_floor_div_nat:
  fixes n d :: nat
  assumes "n < 2 ^ 53" and "0 < d" and "d \<le> 4096"
  shows "num_floor (num_div (Finite (of_nat n)) (Finite (of_nat d))) = Finite (of_nat (n div d))"
proof -
  from fl_div_floor [OF assms] obtain r where
    r: "fl (of_nat n / of_nat d) = Finite r" "\<lfloor>r\<rfloor> = int (n div d)" by blast
  then show ?thesis using assms(2) by simp
qed

lemma length_nat_toString: "10 \<le> k \<Longrightarrow> 2 \<le> length (nat_toString k)"
  by (subst nat_toString.simps, subst nat_toString.simps) simp

lemma length_nat_toString_lt_100:
  assumes "10 \<le> k" and "k < 100"
  shows "length (nat_toString k) = 2"
proof -
  from assms(2) have "k div 10 < 10" by simp
  then show ?thesis using assms(1) 
    by (subst nat_toString.simps, subst nat_toString.simps) simp
qed

lemma padStart_nat_toString: "padStart 2 CHR ''0'' (nat_toString k) = spec_two_digits k"
proof (cases "k < 10")
  case True
  then show ?thesis by (simp add: padStart_def spec_two_digits_def nat_toString.simps)
next
  case False
  then have "2 \<le> length (nat_toString k)" by (simp add: length_nat_toString)
  with False show ?thesis by (simp add: padStart_def spec_two_digits_def)
qed

lemma num_toString_nat:
  fixes k :: nat
  assumes "k < 2 ^ 53"
  shows "num_toString (Finite (of_nat k)) = Some (nat_toString k)"
proof -
  from assms have "(of_nat k :: rat) < of_nat (2 ^ 53)" by (simp only: of_nat_less_iff)
  then have "\<bar>of_nat k :: rat\<bar> < 2 ^ 53" by simp
  then show ?thesis by (simp add: num_toString_def)
qed

lemma getFormattedElapsedTime_nat:
  fixes n :: nat
  assumes n: "n < 2 ^ 53" and e: "elapsedSeconds w = JNumber (Finite (of_nat n))"
  shows "getFormattedElapsedTime S w = Some (spec_HHMMSS n)"
proof -
  have h: "num_floor (js_div S (elapsedSeconds w) (Finite 3600)) = Finite (of_nat (n div 3600))"
    using num_floor_div_nat [OF n, of 3600] by (simp add: e js_div_def)
  have m1: "js_mod S (elapsedSeconds w) (Finite 3600) = Finite (of_nat (n mod 3600))"
    using num_mod_nat [of 3600 n] by (simp add: e js_mod_def)
  have "n mod 3600 < 2 ^ 53" by (rule le_less_trans [OF mod_less_eq_dividend n])
  from num_floor_div_nat [OF this, of 60]
  have m: "num_floor (num_div (js_mod S (elapsedSeconds w) (Finite 3600)) (Finite 60))
      = Finite (of_nat (n mod 3600 div 60))"
    by (simp add: m1)
  have s: "js_mod S (elapsedSeconds w) (Finite 60) = Finite (of_nat (n mod 60))"
    using num_mod_nat [of 60 n] by (simp add: e js_mod_def)
  have "n div 3600 \<le> n" by (rule div_le_dividend)
  from this n have "n div 3600 < 2 ^ 53" by (rule le_less_trans)
  then have th: "num_toString (Finite (of_nat (n div 3600))) = Some (nat_toString (n div 3600))"
    by (rule num_toString_nat)
  have "n mod 3600 div 60 < 2 ^ 53" by (rule less_trans [of _ 60]) simp_all
  then have tm: "num_toString (Finite (of_nat (n mod 3600 div 60)))
      = Some (nat_toString (n mod 3600 div 60))"
    by (rule num_toString_nat)
  have "n mod 60 < 2 ^ 53" by (rule less_trans [of _ 60]) simp_all
  then have ts: "num_toString (Finite (of_nat (n mod 60))) = Some (nat_toString (n mod 60))"
    by (rule num_toString_nat)
  have mm: "n mod 3600 div 60 = n div 60 mod 60"
  proof -
    have "n mod (60 * 60) = 60 * (n div 60 mod 60) + n mod 60" by (rule mod_mult2_eq)
    then have "n mod 3600 = 60 * (n div 60 mod 60) + n mod 60" by simp
    then show ?thesis by simp
  qed
  show ?thesis
    unfolding getFormattedElapsedTime_def Let_def h m s th tm ts
    by (simp add: padStart_nat_toString spec_HHMMSS_def mm)
qed

text \<open>
  The TimerManager's \<open>Math.floor(totalElapsed / 1000)\<close> on a non-negative number of
  milliseconds below \<open>2\<^sup>5\<^sup>3\<close> is the integer quotient, which is how \<open>getElapsedSeconds\<close>
  is modelled.
\<close>

lemma floor_div_1000:
  fixes t :: int
  assumes "0 \<le> t" and "t < 2 ^ 53"
  shows "num_floor (num_div (Finite (of_int t)) (Finite 1000)) = Finite (of_int (t div 1000))"
proof -
  from assms have n: "nat t < 2 ^ 53" by (simp add: nat_less_iff)
  have "num_floor (num_div (Finite (of_nat (nat t))) (Finite (of_nat 1000)))
      = Finite (of_nat (nat t div 1000))"
    using n by (rule num_floor_div_nat) simp_all
  moreover have "int (nat t div 1000) = t div 1000"
    using assms(1) by (simp add: zdiv_int)
  moreover have "of_nat (nat t div 1000) = (of_int (int (nat t div 1000)) :: rat)" by simp
  ultimately show ?thesis using assms(1) by simp
qed

lemma spec_HHMMSS_24h: "spec_HHMMSS 86400 = ''24:00:00''"
  by (simp add: spec_HHMMSS_def spec_two_digits_def nat_toString.simps digit_char_def)

lemma spec_HHMMSS_30h: "spec_HHMMSS 108000 = ''30:00:00''"
  by (simp add: spec_HHMMSS_def spec_two_digits_def nat_toString.simps digit_char_def)

lemma digit_char_digit: "d < 10 \<Longrightarrow> digit_char d \<in> set ''0123456789''"
  unfolding digit_char_def by (rule nth_mem) simp

lemma nat_toString_digits: "set (nat_toString n) \<subseteq> set ''0123456789''"
proof (induction n rule: nat_toString.induct)
  case (1 n)
  show ?case
  proof (cases "n < 10")
    case True
    then have "digit_char n \<in> set ''0123456789''" by (rule digit_char_digit)
    with True show ?thesis by (subst nat_toString.simps) simp
  next
    case False
    have "n mod 10 < 10" by simp
    then have d: "digit_char (n mod 10) \<in> set ''0123456789''" by (rule digit_char_digit)
    from False have "set (nat_toString (n div 10)) \<subseteq> set ''0123456789''" by (rule "1.IH")
    with False d show ?thesis by (subst nat_toString.simps) simp
  qed
qed

lemma spec_two_digits_digits: "set (spec_two_digits k) \<subseteq> set ''0123456789''"
proof (cases "k < 10")
  case True
  then have "digit_char k \<in> set ''0123456789''" by (rule digit_char_digit)
  with True show ?thesis by (simp add: spec_two_digits_def)
next
  case False
  then show ?thesis using nat_toString_digits [of k] by (simp add: spec_two_digits_def)
qed

lemma length_spec_two_digits: "2 \<le> length (spec_two_digits k)"
  by (simp add: spec_two_digits_def length_nat_toString)

lemma length_spec_two_digits_lt_60: "k < 60 \<Longrightarrow> length (spec_two_digits k) = 2"
  by (simp add: spec_two_digits_def length_nat_toString_lt_100)

text \<open>
  Claim C8. For every elapsed-seconds value that is a non-negative integer \<open>n\<close> of the
  range in which a Number holds every integer (\<open>n < 2\<^sup>5\<^sup>3\<close>), the field
  \<open>formattedElapsedTime\<close> of the snapshot is \<open>HH:MM:SS\<close>: three fields of decimal digits
  separated by colons, the hours \<open>n div 3600\<close> (not reduced modulo 24) in at least two
  digits, the minutes and the seconds in exactly two. 86400 seconds are shown as
  \<open>24:00:00\<close> and 30 hours as \<open>30:00:00\<close>.
\<close>

theorem formatted_elapsed_time:
  fixes n :: nat
  assumes "n < 2 ^ 53"
    and "getElapsedTime (wageCounter app) = JNumber (Finite (of_nat n))"
  shows "st_formattedElapsedTime (getState S app)
           = Some (spec_two_digits (n div 3600) @ '':'' @ spec_two_digits (n div 60 mod 60)
                   @ '':'' @ spec_two_digits (n mod 60))
         \<and> set (spec_two_digits (n div 3600) @ spec_two_digits (n div 60 mod 60)
                @ spec_two_digits (n mod 60)) \<subseteq> set ''0123456789''
         \<and> 2 \<le> length (spec_two_digits (n div 3600))
         \<and> length (spec_two_digits (n div 60 mod 60)) = 2
         \<and> length (spec_two_digits (n mod 60)) = 2
         \<and> st_formattedElapsedTime
              (getState S (app\<lparr> wageCounter :=
                 updateElapsedTime S (JNumber (Finite 86400)) (wageCounter app) \<rparr>))
             = Some ''24:00:00''
         \<and> st_formattedElapsedTime
              (getState S (app\<lparr> wageCounter :=
                 updateElapsedTime S (JNumber (Finite 108000)) (wageCounter app) \<rparr>))
             = Some ''30:00:00''"
proof -
  from assms(2) have e: "elapsedSeconds (wageCounter app) = JNumber (Finite (of_nat n))"
    by (simp add: getElapsedTime_def)
  from assms(1) e have "getFormattedElapsedTime S (wageCounter app) = Some (spec_HHMMSS n)"
    by (rule getFormattedElapsedTime_nat)
  then have a: "st_formattedElapsedTime (getState S app)
      = Some (spec_two_digits (n div 3600) @ '':'' @ spec_two_digits (n div 60 mod 60)
              @ '':'' @ spec_two_digits (n mod 60))"
    by (simp add: getState_def spec_HHMMSS_def)
  have b: "set (spec_two_digits (n div 3600) @ spec_two_digits (n div 60 mod 60)
      @ spec_two_digits (n mod 60)) \<subseteq> set ''0123456789''"
    using spec_two_digits_digits [of "n div 3600"] spec_two_digits_digits [of "n div 60 mod 60"]
      spec_two_digits_digits [of "n mod 60"]
    by (simp only: set_append Un_subset_iff)
  have c: "2 \<le> length (spec_two_digits (n div 3600))" by (rule length_spec_two_digits)
  have d: "length (spec_two_digits (n div 60 mod 60)) = 2"
    by (rule length_spec_two_digits_lt_60) simp
  have f: "length (spec_two_digits (n mod 60)) = 2"
    by (rule length_spec_two_digits_lt_60) simp
  have fmt: "getFormattedElapsedTime S (updateElapsedTime S (JNumber (Finite (of_nat k))) w)
      = Some (spec_HHMMSS k)" if "k < 2 ^ 53" for k :: nat and w
    using that by (rule getFormattedElapsedTime_nat)
      (simp add: updateElapsedTime_def updateCurrentEarnings_def)
  have g: "st_formattedElapsedTime
      (getState S (app\<lparr> wageCounter :=
         updateElapsedTime S (JNumber (Finite 86400)) (wageCounter app) \<rparr>))
      = Some ''24:00:00''"
    using fmt [of 86400 "wageCounter app"] by (simp add: getState_def spec_HHMMSS_24h)
  have h: "st_formattedElapsedTime
      (getState S (app\<lparr> wageCounter :=
         updateElapsedTime S (JNumber (Finite 108000)) (wageCounter app) \<rparr>))
      = Some ''30:00:00''"
    using fmt [of 108000 "wageCounter app"] by (simp add: getState_def spec_HHMMSS_30h)
  from a b c d f g h show ?thesis by (intro conjI)
qed

text \<open>The theorem at 3725 seconds: one hour, two minutes, five seconds.\<close>

theorem formatted_elapsed_time_witness:
  "(3725::nat) < 2 ^ 53
   \<and> getElapsedTime
       (wageCounter (WageCounterApp_new\<lparr> wageCounter :=
          updateElapsedTime str_NaN (JNumber (Finite 3725)) WageCounter_new \<rparr>))
     = JNumber (Finite (of_nat 3725))
   \<and> st_formattedElapsedTime
       (getState str_NaN (WageCounterApp_new\<lparr> wageCounter :=
          updateElapsedTime str_NaN (JNumber (Finite 3725)) WageCounter_new \<rparr>))
     = Some ''01:02:05''"
proof -
  let ?app = "WageCounterApp_new\<lparr> wageCounter :=
     updateElapsedTime str_NaN (JNumber (Finite 3725)) WageCounter_new \<rparr>"
  have n: "(3725::nat) < 2 ^ 53" by simp
  have e: "getElapsedTime (wageCounter ?app) = JNumber (Finite (of_nat 3725))"
    by (simp add: getElapsedTime_def updateElapsedTime_def updateCurrentEarnings_def)
  have "st_formattedElapsedTime (getState str_NaN ?app)
      = Some (spec_two_digits (3725 div 3600) @ '':'' @ spec_two_digits (3725 div 60 mod 60)
              @ '':'' @ spec_two_digits (3725 mod 60))"
    by (rule formatted_elapsed_time [OF n e, THEN conjunct1])
  also have "\<dots> = Some ''01:02:05''"
    by (simp add: spec_two_digits_def nat_toString.simps digit_char_def)
  finally show ?thesis using n e by (intro conjI)
qed

end
